theory Spec2Isabelle
  imports Main "HOL-Library.Product_Lexorder" "HOL-Library.List_Lexorder" "HOL-Library.Char_ord"
begin

section \<open>Values, types and exceptions\<close>

text \<open>
  The Python values the differ is run on.  Scalars are \<open>None\<close>, integers and strings;
  containers are lists, tuples, dicts (an association list in insertion order), sets and
  frozensets (listed in their iteration order).  \<open>PCallable f\<close> is a plain function object
  (hashable, compared by identity, called through the environment below); \<open>PUnhashable n\<close>
  is an opaque object whose class has no \<open>__hash__\<close> (compared by identity, not iterable,
  not callable).  Floats and booleans are not part of the model.
\<close>

datatype pyval =
    PNone
  | PInt int
  | PStr string
  | PList "pyval list"
  | PTuple "pyval list"
  | PDict "(pyval \<times> pyval) list"
  | PSet "pyval list"
  | PFrozenset "pyval list"
  | PCallable nat
  | PUnhashable nat

datatype pytype =
  TNone | TInt | TStr | TList | TTuple | TDict | TSet | TFrozenset | TFunction | TUnhashable

fun type_of :: "pyval \<Rightarrow> pytype" where
  "type_of PNone = TNone"
| "type_of (PInt _) = TInt"
| "type_of (PStr _) = TStr"
| "type_of (PList _) = TList"
| "type_of (PTuple _) = TTuple"
| "type_of (PDict _) = TDict"
| "type_of (PSet _) = TSet"
| "type_of (PFrozenset _) = TFrozenset"
| "type_of (PCallable _) = TFunction"
| "type_of (PUnhashable _) = TUnhashable"

fun type_name :: "pytype \<Rightarrow> string" where
  "type_name TNone = ''NoneType''"
| "type_name TInt = ''int''"
| "type_name TStr = ''str''"
| "type_name TList = ''list''"
| "type_name TTuple = ''tuple''"
| "type_name TDict = ''dict''"
| "type_name TSet = ''set''"
| "type_name TFrozenset = ''frozenset''"
| "type_name TFunction = ''function''"
| "type_name TUnhashable = ''Unhashable''"

text \<open>
  The exception classes of the module, with the arguments they are raised with, and the
  built-in exceptions the code can meet.  \<open>NotHashable\<close>, \<open>NotSequence\<close> and
  \<open>DiffTypeError\<close> derive from \<open>TypeError\<close>; \<open>DiffNotImplementedForType\<close> derives from
  \<open>DiffTypeError\<close>.
\<close>

datatype exn =
    NotHashable pytype pyval
  | NotSequence pytype
  | DiffTypeError string string pytype pytype pyval pyval
  | DiffNotImplementedForType pytype
  | TypeError
  | IndexError
  | KeyError
  | AttributeError
  | Exception string

fun is_DiffTypeError :: "exn \<Rightarrow> bool" where
  "is_DiffTypeError (DiffTypeError _ _ _ _ _ _) = True"
| "is_DiffTypeError (DiffNotImplementedForType _) = True"
| "is_DiffTypeError _ = False"

fun is_NotHashable :: "exn \<Rightarrow> bool" where
  "is_NotHashable (NotHashable _ _) = True"
| "is_NotHashable _ = False"

fun is_NotSequence :: "exn \<Rightarrow> bool" where
  "is_NotSequence (NotSequence _) = True"
| "is_NotSequence _ = False"

section \<open>The diff tree\<close>

text \<open>
  \<open>DataDiff.diffs\<close> is a list of pairs \<open>(change, items)\<close>.  The methods of the class build
  four shapes of pair, one constructor each: \<open>context\<close> (four indices),
  \<open>context_end_container\<close>, \<open>nested\<close> (tag \<open>'datadiff'\<close>, one object) and \<open>multi\<close>
  (a change tag and a list of objects).  The change tags are the opcode tags of the
  sequence matcher.  The objects stored in a tree are values, caught exceptions, trees
  and \<open>dictitem\<close>s (a key, an object and the optional \<open>depth\<close> attribute).
\<close>

datatype change = Replace | Delete | Insert | Equal

datatype datadiff =
  DataDiff (diffs: "diffentry list") (datatype': pytype) (type_start_str: "string option")
    (type_end_str: string) (fromfile: string) (tofile: string)
and diffentry =
    Context int int int int
  | ContextEndContainer
  | Datadiff obj
  | Multi change "obj list"
and obj =
    Value pyval
  | Error exn
  | Tree datadiff
  | Dictitem pyval obj "int option"

text \<open>
  What the language supplies from outside the module: the behaviour of the callables
  (the truth value of what a call returns, or the exception it raises), \<open>hash\<close>,
  \<open>repr\<close> of values, of exceptions and of a \<open>DataDiff\<close> object, and the order in which a
  newly built set is iterated.
\<close>

datatype callres = Returns bool | Raises exn

record env =
  call :: "nat \<Rightarrow> pyval \<Rightarrow> callres"
  pyhash :: "pyval \<Rightarrow> int"
  repr :: "pyval \<Rightarrow> string"
  repr_exn :: "exn \<Rightarrow> string"
  repr_datadiff :: "datadiff \<Rightarrow> string"
  set_iter :: "pyval list \<Rightarrow> pyval list"

text \<open>
  \<open>DataDiff.__init__\<close>: the delimiters default to the type's name when no end delimiter
  is given; a start delimiter without an end delimiter is refused.
\<close>

definition DataDiff_init ::
  "pytype \<Rightarrow> string option \<Rightarrow> string option \<Rightarrow> string \<Rightarrow> string \<Rightarrow> exn + datadiff" where
  "DataDiff_init ty start_str end_str ff tf =
     (case end_str of
        None \<Rightarrow>
          (case start_str of
             Some _ \<Rightarrow>
               Inl (Exception ''Must specify both type_start_str and type_end_str, or neither'')
           | None \<Rightarrow> Inr (DataDiff [] ty (Some (type_name ty @ ''(['')) ''])'' ff tf))
      | Some e \<Rightarrow> Inr (DataDiff [] ty start_str e ff tf))"

definition diffs_append :: "diffentry \<Rightarrow> datadiff \<Rightarrow> datadiff" where
  "diffs_append d self =
     DataDiff (diffs self @ [d]) (datatype' self) (type_start_str self) (type_end_str self)
       (fromfile self) (tofile self)"

definition diffs_extend :: "diffentry list \<Rightarrow> datadiff \<Rightarrow> datadiff" where
  "diffs_extend ds self =
     DataDiff (diffs self @ ds) (datatype' self) (type_start_str self) (type_end_str self)
       (fromfile self) (tofile self)"

definition context' :: "int \<Rightarrow> int \<Rightarrow> int \<Rightarrow> int \<Rightarrow> datadiff \<Rightarrow> datadiff" where
  "context' a_start a_end b_start b_end self =
     diffs_append (Context a_start a_end b_start b_end) self"

definition context_end_container :: "datadiff \<Rightarrow> datadiff" where
  "context_end_container self = diffs_append ContextEndContainer self"

definition nested :: "obj \<Rightarrow> datadiff \<Rightarrow> datadiff" where
  "nested datadiff self = diffs_append (Datadiff datadiff) self"

definition multi :: "change \<Rightarrow> obj list \<Rightarrow> datadiff \<Rightarrow> datadiff" where
  "multi change items self = diffs_append (Multi change items) self"

definition delete :: "obj \<Rightarrow> datadiff \<Rightarrow> datadiff" where
  "delete item self = multi Delete [item] self"

definition insert_item :: "obj \<Rightarrow> datadiff \<Rightarrow> datadiff" where
  "insert_item item self = multi Insert [item] self"

definition equal_item :: "obj \<Rightarrow> datadiff \<Rightarrow> datadiff" where
  "equal_item item self = multi Equal [item] self"

definition insert_multi :: "obj list \<Rightarrow> datadiff \<Rightarrow> datadiff" where
  "insert_multi items self = multi Insert items self"

definition delete_multi :: "obj list \<Rightarrow> datadiff \<Rightarrow> datadiff" where
  "delete_multi items self = multi Delete items self"

definition equal_multi :: "obj list \<Rightarrow> datadiff \<Rightarrow> datadiff" where
  "equal_multi items self = multi Equal items self"

text \<open>
  \<open>DataDiff.__bool__\<close>: the list of the entries whose tag is not \<open>'equal'\<close>,
  \<open>'context_end_container'\<close> or \<open>'context'\<close> is not empty.
\<close>

fun real_change :: "diffentry \<Rightarrow> bool" where
  "real_change (Context _ _ _ _) = False"
| "real_change ContextEndContainer = False"
| "real_change (Multi Equal _) = False"
| "real_change _ = True"

definition DataDiff_bool :: "datadiff \<Rightarrow> bool" where
  "DataDiff_bool self = (filter real_change (diffs self) \<noteq> [])"

subsection \<open>Rendering\<close>

fun join :: "string \<Rightarrow> string list \<Rightarrow> string" where
  "join sep [] = []"
| "join sep [x] = x"
| "join sep (x # y # ys) = x @ sep @ join sep (y # ys)"

fun str_nat :: "nat \<Rightarrow> string" where
  "str_nat n =
     (if n < 10 then [char_of (48 + n)] else str_nat (n div 10) @ [char_of (48 + n mod 10)])"

declare str_nat.simps [simp del]

definition str_int :: "int \<Rightarrow> string" where
  "str_int i = (if i < 0 then CHR ''-'' # str_nat (nat (- i)) else str_nat (nat i))"

definition spaces :: "int \<Rightarrow> string" where
  "spaces depth = replicate (nat depth) CHR '' ''"

definition is_space :: "char \<Rightarrow> bool" where
  "is_space c = (of_char c \<in> {9, 10, 11, 12, 13, 28, 29, 30, 31, 32, 133, 160 :: nat})"

definition strip :: "string \<Rightarrow> string" where
  "strip s = rev (dropWhile is_space (rev (dropWhile is_space s)))"

definition newline :: char where
  "newline = CHR 0x0A"

definition quote :: char where
  "quote = CHR 0x27"

text \<open>
  \<open>DataDiff.stringify\<close>, with the loop over \<open>self.diffs\<close> as \<open>stringify_diffs\<close> (the lines
  it appends to \<open>output\<close>), \<open>%r\<close> of a stored object as \<open>repr_obj\<close>
  (\<open>dictitem.__repr__\<close> for a \<open>dictitem\<close>) and the loop over the items of a change run as
  \<open>repr_items\<close>.  Only a \<open>DataDiff\<close> has a \<open>stringify\<close> attribute.
\<close>

fun stringify :: "env \<Rightarrow> datadiff \<Rightarrow> int \<Rightarrow> bool \<Rightarrow> exn + string"
and stringify_diffs :: "env \<Rightarrow> diffentry list \<Rightarrow> int \<Rightarrow> exn + string list"
and stringify_entry :: "env \<Rightarrow> diffentry \<Rightarrow> int \<Rightarrow> exn + string list"
and repr_obj :: "env \<Rightarrow> obj \<Rightarrow> exn + string"
and repr_items :: "env \<Rightarrow> string \<Rightarrow> obj list \<Rightarrow> int \<Rightarrow> exn + string list" where
  "stringify env (DataDiff ds ty start_str end_str ff tf) depth include_preamble =
     (if ds = [] then Inr []
      else
        (case start_str of
           None \<Rightarrow> Inl TypeError
         | Some s \<Rightarrow>
             (case stringify_diffs env ds depth of
                Inl e \<Rightarrow> Inl e
              | Inr ls \<Rightarrow>
                  Inr (join [newline]
                    ((if depth = 0 \<and> include_preamble then [''--- '' @ ff, ''+++ '' @ tf] else [])
                     @ [spaces depth @ s] @ ls @ [spaces depth @ end_str])))))"
| "stringify_diffs env [] depth = Inr []"
| "stringify_diffs env (d # ds) depth =
     (case stringify_entry env d depth of
        Inl e \<Rightarrow> Inl e
      | Inr ls \<Rightarrow>
          (case stringify_diffs env ds depth of
             Inl e \<Rightarrow> Inl e
           | Inr ls' \<Rightarrow> Inr (ls @ ls')))"
| "stringify_entry env (Context a0 a1 b0 b1) depth =
     Inr [spaces depth @ ''@@ -''
          @ (str_int a0 @ (if a0 \<noteq> a1 then '','' @ str_int a1 else []))
          @ '' +''
          @ (str_int b0 @ (if b0 \<noteq> b1 then '','' @ str_int b1 else []))
          @ '' @@'']"
| "stringify_entry env ContextEndContainer depth = Inr [spaces depth @ ''@@  @@'']"
| "stringify_entry env (Datadiff (Tree t)) depth =
     (case stringify env t (depth + 1) True of
        Inr s \<Rightarrow> Inr [spaces depth @ s @ '','']
      | Inl e \<Rightarrow>
          (if e = AttributeError
           then Inr [spaces depth @ '' '' @ repr_datadiff env t @ '','']
           else Inl e))"
| "stringify_entry env (Datadiff (Value v)) depth =
     Inr [spaces depth @ '' '' @ repr env v @ '','']"
| "stringify_entry env (Datadiff (Error x)) depth =
     Inr [spaces depth @ '' '' @ repr_exn env x @ '','']"
| "stringify_entry env (Datadiff (Dictitem k v dp)) depth =
     (case repr_obj env (Dictitem k v dp) of
        Inl e \<Rightarrow> Inl e
      | Inr r \<Rightarrow> Inr [spaces depth @ '' '' @ r @ '',''])"
| "stringify_entry env (Multi Delete items) depth = repr_items env ''-'' items depth"
| "stringify_entry env (Multi Insert items) depth = repr_items env ''+'' items depth"
| "stringify_entry env (Multi Equal items) depth = repr_items env '' '' items depth"
| "stringify_entry env (Multi Replace items) depth =
     Inl (Exception (''Unknown change type '' @ [quote] @ ''replace'' @ [quote]))"
| "repr_obj env (Value v) = Inr (repr env v)"
| "repr_obj env (Error x) = Inr (repr_exn env x)"
| "repr_obj env (Tree t) = Inr (repr_datadiff env t)"
| "repr_obj env (Dictitem key (Tree t) dp) =
     (case dp of
        None \<Rightarrow> Inl AttributeError
      | Some self_depth \<Rightarrow>
          (case stringify env t self_depth False of
             Inl e \<Rightarrow> Inl e
           | Inr diff_val \<Rightarrow> Inr (repr env key @ '': '' @ strip diff_val)))"
| "repr_obj env (Dictitem key val dp) =
     (case repr_obj env val of
        Inl e \<Rightarrow> Inl e
      | Inr r \<Rightarrow> Inr (repr env key @ '': '' @ r))"
| "repr_items env ch [] depth = Inr []"
| "repr_items env ch (item # items) depth =
     (case repr_obj env item of
        Inl e \<Rightarrow> Inl e
      | Inr r \<Rightarrow>
          (case repr_items env ch items depth of
             Inl e \<Rightarrow> Inl e
           | Inr ls \<Rightarrow> Inr ((spaces depth @ ch @ r @ '','') # ls)))"

section \<open>The sequence matcher\<close>

text \<open>
  \<open>difflib.SequenceMatcher\<close> is the standard library's, not this module's; the differ
  runs it with \<open>isjunk = None\<close> and \<open>autojunk = True\<close>, and reads its
  \<open>get_grouped_opcodes\<close>.  It is transcribed here from \<open>difflib.py\<close> so that a diff can be
  evaluated from end to end.  \<open>eq\<close> is \<open>==\<close> on the elements; the dictionary \<open>b2j\<close> maps
  an element of \<open>b\<close> to the ascending list of its indices, without the popular elements
  (more than \<open>n // 100 + 1\<close> occurrences when \<open>n \<ge> 200\<close>).  No element is junk, so the two
  junk-extension loops of \<open>find_longest_match\<close> never run.
\<close>

type_synonym opcode = "change \<times> int \<times> int \<times> int \<times> int"

definition indices_of :: "('a \<Rightarrow> 'a \<Rightarrow> bool) \<Rightarrow> 'a list \<Rightarrow> 'a \<Rightarrow> nat list" where
  "indices_of eq b elt = filter (\<lambda>j. eq (b ! j) elt) [0..<length b]"

definition b2j_get :: "('a \<Rightarrow> 'a \<Rightarrow> bool) \<Rightarrow> 'a list \<Rightarrow> 'a \<Rightarrow> nat list" where
  "b2j_get eq b elt =
     (let idxs = indices_of eq b elt; n = length b
      in if n \<ge> 200 \<and> length idxs > n div 100 + 1 then [] else idxs)"

text \<open>The inner loop, over the indices \<open>j\<close> of \<open>b2j[a[i]]\<close>.\<close>

fun flm_row ::
  "nat \<Rightarrow> nat \<Rightarrow> nat \<Rightarrow> (nat \<rightharpoonup> nat) \<Rightarrow> nat list \<Rightarrow>
   (nat \<rightharpoonup> nat) \<times> nat \<times> nat \<times> nat \<Rightarrow> (nat \<rightharpoonup> nat) \<times> nat \<times> nat \<times> nat" where
  "flm_row i blo bhi j2len [] st = st"
| "flm_row i blo bhi j2len (j # js) (newj2len, besti, bestj, bestsize) =
     (if j < blo then flm_row i blo bhi j2len js (newj2len, besti, bestj, bestsize)
      else if j \<ge> bhi then (newj2len, besti, bestj, bestsize)
      else
        (let k = (if j = 0 then 0 else (case j2len (j - 1) of None \<Rightarrow> 0 | Some v \<Rightarrow> v)) + 1
         in flm_row i blo bhi j2len js
              (newj2len(j \<mapsto> k),
               if k > bestsize then (i + 1 - k, j + 1 - k, k) else (besti, bestj, bestsize))))"

text \<open>The outer loop, over \<open>i\<close> in \<open>range(alo, ahi)\<close>.\<close>

fun flm_rows ::
  "('a \<Rightarrow> 'a \<Rightarrow> bool) \<Rightarrow> 'a list \<Rightarrow> 'a list \<Rightarrow> nat \<Rightarrow> nat \<Rightarrow> nat list \<Rightarrow>
   (nat \<rightharpoonup> nat) \<times> nat \<times> nat \<times> nat \<Rightarrow> nat \<times> nat \<times> nat" where
  "flm_rows eq a b blo bhi [] (j2len, best) = best"
| "flm_rows eq a b blo bhi (i # is) (j2len, best) =
     flm_rows eq a b blo bhi is
       (flm_row i blo bhi j2len (b2j_get eq b (a ! i)) (Map.empty, best))"

function extend_left ::
  "('a \<Rightarrow> 'a \<Rightarrow> bool) \<Rightarrow> 'a list \<Rightarrow> 'a list \<Rightarrow> nat \<Rightarrow> nat \<Rightarrow> nat \<times> nat \<times> nat \<Rightarrow>
   nat \<times> nat \<times> nat" where
  "extend_left eq a b alo blo (besti, bestj, bestsize) =
     (if besti > alo \<and> bestj > blo \<and> eq (a ! (besti - 1)) (b ! (bestj - 1))
      then extend_left eq a b alo blo (besti - 1, bestj - 1, bestsize + 1)
      else (besti, bestj, bestsize))"
  by pat_completeness auto
termination
  by (relation "measure (\<lambda>(eq, a, b, alo, blo, besti, bestj, bestsize). besti)") auto

function extend_right ::
  "('a \<Rightarrow> 'a \<Rightarrow> bool) \<Rightarrow> 'a list \<Rightarrow> 'a list \<Rightarrow> nat \<Rightarrow> nat \<Rightarrow> nat \<times> nat \<times> nat \<Rightarrow>
   nat \<times> nat \<times> nat" where
  "extend_right eq a b ahi bhi (besti, bestj, bestsize) =
     (if besti + bestsize < ahi \<and> bestj + bestsize < bhi
         \<and> eq (a ! (besti + bestsize)) (b ! (bestj + bestsize))
      then extend_right eq a b ahi bhi (besti, bestj, bestsize + 1)
      else (besti, bestj, bestsize))"
  by pat_completeness auto
termination
  by (relation "measure (\<lambda>(eq, a, b, ahi, bhi, besti, bestj, bestsize). ahi - (besti + bestsize))")
    auto

definition find_longest_match ::
  "('a \<Rightarrow> 'a \<Rightarrow> bool) \<Rightarrow> 'a list \<Rightarrow> 'a list \<Rightarrow> nat \<Rightarrow> nat \<Rightarrow> nat \<Rightarrow> nat \<Rightarrow> nat \<times> nat \<times> nat" where
  "find_longest_match eq a b alo ahi blo bhi =
     extend_right eq a b ahi bhi
       (extend_left eq a b alo blo
          (flm_rows eq a b blo bhi [alo..<ahi] (Map.empty, alo, blo, 0)))"

declare extend_left.simps [simp del] extend_right.simps [simp del]

lemma flm_row_bounds:
  assumes "flm_row i blo bhi j2len js (new, bi, bj, bs) = (new', bi', bj', bs')"
    and "\<forall>j v. j2len j = Some v \<longrightarrow> v \<le> i - alo"
    and "alo \<le> i" and "i < ahi"
    and "\<forall>j v. new j = Some v \<longrightarrow> v \<le> i + 1 - alo"
    and "alo \<le> bi" and "bs = 0 \<longrightarrow> bi = alo" and "0 < bs \<longrightarrow> bi + bs \<le> ahi"
  shows "(\<forall>j v. new' j = Some v \<longrightarrow> v \<le> i + 1 - alo) \<and> alo \<le> bi'
         \<and> (bs' = 0 \<longrightarrow> bi' = alo) \<and> (0 < bs' \<longrightarrow> bi' + bs' \<le> ahi)"
  using assms
proof (induction js arbitrary: new bi bj bs)
  case Nil
  then show ?case by simp
next
  case (Cons j js)
  show ?case
  proof (cases "j < blo")
    case True
    with Cons.prems show ?thesis
      by (intro Cons.IH[of new bi bj bs]) simp_all
  next
    case nlo: False
    show ?thesis
    proof (cases "j \<ge> bhi")
      case True
      with nlo Cons.prems show ?thesis by simp
    next
      case False
      define k where "k = (if j = 0 then 0 else (case j2len (j - 1) of None \<Rightarrow> 0 | Some v \<Rightarrow> v)) + 1"
      have "\<And>v. j2len (j - 1) = Some v \<Longrightarrow> v \<le> i - alo"
        using Cons.prems(2) by blast
      then have kle: "k \<le> i + 1 - alo" and kpos: "0 < k"
        using Cons.prems(3) by (auto simp: k_def Suc_diff_le split: option.splits)
      show ?thesis
      proof (cases "k > bs")
        case True
        have step: "flm_row i blo bhi j2len js (new(j \<mapsto> k), i + 1 - k, j + 1 - k, k) = (new', bi', bj', bs')"
          using Cons.prems(1) nlo False True by (simp add: k_def Let_def)
        show ?thesis
          by (rule Cons.IH[OF step Cons.prems(2,3,4)])
            (use kle kpos Cons.prems in \<open>auto\<close>)
      next
        case nb: False
        have step: "flm_row i blo bhi j2len js (new(j \<mapsto> k), bi, bj, bs) = (new', bi', bj', bs')"
          using Cons.prems(1) nlo False nb by (simp add: k_def Let_def)
        show ?thesis
          by (rule Cons.IH[OF step Cons.prems(2,3,4)])
            (use kle kpos Cons.prems in \<open>auto\<close>)
      qed
    qed
  qed
qed

lemma flm_rows_bounds:
  assumes "flm_rows eq a b blo bhi [lo..<ahi] (j2len, bi, bj, bs) = (bi', bj', bs')"
    and "\<forall>j v. j2len j = Some v \<longrightarrow> v \<le> lo - alo"
    and "alo \<le> lo"
    and "alo \<le> bi" and "bs = 0 \<longrightarrow> bi = alo" and "0 < bs \<longrightarrow> bi + bs \<le> ahi"
  shows "alo \<le> bi' \<and> (bs' = 0 \<longrightarrow> bi' = alo) \<and> (0 < bs' \<longrightarrow> bi' + bs' \<le> ahi)"
  using assms
proof (induction "ahi - lo" arbitrary: lo j2len bi bj bs)
  case 0
  then show ?case by simp
next
  case (Suc n)
  then have lt: "lo < ahi" by simp
  obtain new bi1 bj1 bs1 where row:
    "flm_row lo blo bhi j2len (b2j_get eq b (a ! lo)) (Map.empty, bi, bj, bs) = (new, bi1, bj1, bs1)"
    by (metis prod_cases4)
  have inv: "(\<forall>j v. new j = Some v \<longrightarrow> v \<le> lo + 1 - alo) \<and> alo \<le> bi1
         \<and> (bs1 = 0 \<longrightarrow> bi1 = alo) \<and> (0 < bs1 \<longrightarrow> bi1 + bs1 \<le> ahi)"
    by (rule flm_row_bounds[OF row Suc.prems(2) Suc.prems(3) lt _ Suc.prems(4,5,6)]) simp
  have rest: "flm_rows eq a b blo bhi [Suc lo..<ahi] (new, bi1, bj1, bs1) = (bi', bj', bs')"
    using Suc.prems(1) lt row by (simp add: upt_conv_Cons)
  show ?case
    by (rule Suc.hyps(1)[OF _ rest]) (use Suc.hyps(2) Suc.prems(3) inv in \<open>auto\<close>)
qed

lemma extend_left_bounds:
  "extend_left eq a b alo blo (bi, bj, bs) = (bi', bj', bs') \<Longrightarrow> alo \<le> bi \<Longrightarrow>
   alo \<le> bi' \<and> bi' \<le> bi \<and> bi' + bs' = bi + bs"
proof (induction eq a b alo blo "(bi, bj, bs)" arbitrary: bi bj bs rule: extend_left.induct)
  case (1 eq a b alo blo besti bestj bestsize)
  show ?case
  proof (cases "besti > alo \<and> bestj > blo \<and> eq (a ! (besti - 1)) (b ! (bestj - 1))")
    case True
    then have "extend_left eq a b alo blo (besti - 1, bestj - 1, bestsize + 1) = (bi', bj', bs')"
      using "1.prems"(1) by (simp add: extend_left.simps[of eq a b alo blo besti])
    moreover have "alo \<le> besti - 1"
      using True by auto
    ultimately have "alo \<le> bi' \<and> bi' \<le> besti - 1 \<and> bi' + bs' = besti - 1 + (bestsize + 1)"
      by (rule "1.hyps"[OF True])
    with True show ?thesis by auto
  next
    case False
    then show ?thesis
      using "1.prems"
      by (auto simp: extend_left.simps[of eq a b alo blo besti] split: if_splits)
  qed
qed

lemma extend_right_bounds:
  "extend_right eq a b ahi bhi (bi, bj, bs) = (bi', bj', bs') \<Longrightarrow>
   (0 < bs \<longrightarrow> bi + bs \<le> ahi) \<Longrightarrow>
   bi' = bi \<and> (0 < bs' \<longrightarrow> bi' + bs' \<le> ahi)"
proof (induction eq a b ahi bhi "(bi, bj, bs)" arbitrary: bi bj bs rule: extend_right.induct)
  case (1 eq a b ahi bhi besti bestj bestsize)
  show ?case
  proof (cases "besti + bestsize < ahi \<and> bestj + bestsize < bhi
         \<and> eq (a ! (besti + bestsize)) (b ! (bestj + bestsize))")
    case True
    then have "extend_right eq a b ahi bhi (besti, bestj, bestsize + 1) = (bi', bj', bs')"
      using "1.prems"(1) by (simp add: extend_right.simps[of eq a b ahi bhi besti])
    from "1.hyps"[OF True this] True show ?thesis by auto
  next
    case False
    then show ?thesis
      using "1.prems"
      by (auto simp: extend_right.simps[of eq a b ahi bhi besti] split: if_splits)
  qed
qed

lemma find_longest_match_bounds:
  assumes "find_longest_match eq a b alo ahi blo bhi = (i, j, k)" and "0 < k"
  shows "alo \<le> i \<and> i + k \<le> ahi"
proof -
  obtain bi bj bs where rows:
    "flm_rows eq a b blo bhi [alo..<ahi] (Map.empty, alo, blo, 0) = (bi, bj, bs)"
    by (metis prod_cases3)
  have r: "alo \<le> bi \<and> (bs = 0 \<longrightarrow> bi = alo) \<and> (0 < bs \<longrightarrow> bi + bs \<le> ahi)"
    by (rule flm_rows_bounds[OF rows]) simp_all
  obtain li lj ls where left: "extend_left eq a b alo blo (bi, bj, bs) = (li, lj, ls)"
    by (metis prod_cases3)
  have l: "alo \<le> li \<and> li \<le> bi \<and> li + ls = bi + bs"
    using extend_left_bounds[OF left] r by simp
  have right: "extend_right eq a b ahi bhi (li, lj, ls) = (i, j, k)"
    using assms(1) rows left by (simp add: find_longest_match_def)
  have "0 < ls \<longrightarrow> li + ls \<le> ahi"
    using l r by (cases "bs = 0") auto
  from extend_right_bounds[OF right this] l assms(2) show ?thesis by auto
qed

text \<open>
  \<open>get_matching_blocks\<close>: the work list \<open>queue\<close> is a stack with its top at the head
  (\<open>queue.pop()\<close> takes the entry appended last).
\<close>

definition queue_push ::
  "nat \<times> nat \<times> nat \<times> nat \<Rightarrow> nat \<times> nat \<times> nat \<Rightarrow>
   (nat \<times> nat \<times> nat \<times> nat) list \<Rightarrow> (nat \<times> nat \<times> nat \<times> nat) list" where
  "queue_push r x queue =
     (case (r, x) of ((alo, ahi, blo, bhi), (i, j, k)) \<Rightarrow>
        (if i + k < ahi \<and> j + k < bhi then [(i + k, ahi, j + k, bhi)] else [])
        @ (if alo < i \<and> blo < j then [(alo, i, blo, j)] else [])
        @ queue)"

definition queue_size :: "(nat \<times> nat \<times> nat \<times> nat) list \<Rightarrow> nat" where
  "queue_size queue = sum_list (map (\<lambda>(alo, ahi, blo, bhi). 2 * (ahi - alo) + 1) queue)"

lemma queue_push_size:
  assumes "find_longest_match eq a b alo ahi blo bhi = (i, j, k)" and "k \<noteq> 0"
  shows "queue_size (queue_push (alo, ahi, blo, bhi) (i, j, k) queue)
         < queue_size ((alo, ahi, blo, bhi) # queue)"
proof -
  have "alo \<le> i \<and> i + k \<le> ahi"
    using find_longest_match_bounds[OF assms(1)] assms(2) by simp
  then show ?thesis
    using assms(2) by (auto simp: queue_push_def queue_size_def)
qed

function matching_blocks_loop ::
  "('a \<Rightarrow> 'a \<Rightarrow> bool) \<Rightarrow> 'a list \<Rightarrow> 'a list \<Rightarrow> (nat \<times> nat \<times> nat \<times> nat) list \<Rightarrow>
   (nat \<times> nat \<times> nat) list \<Rightarrow> (nat \<times> nat \<times> nat) list" where
  "matching_blocks_loop eq a b [] matching_blocks = matching_blocks"
| "matching_blocks_loop eq a b ((alo, ahi, blo, bhi) # queue) matching_blocks =
     (let x = find_longest_match eq a b alo ahi blo bhi
      in if snd (snd x) \<noteq> 0
         then matching_blocks_loop eq a b (queue_push (alo, ahi, blo, bhi) x queue)
                (matching_blocks @ [x])
         else matching_blocks_loop eq a b queue matching_blocks)"
  by pat_completeness auto
termination
proof (relation "measure (\<lambda>(eq, a, b, queue, blocks). queue_size queue)", goal_cases)
  case 1
  show ?case by simp
next
  case (2 eq a b alo ahi blo bhi queue matching_blocks x)
  obtain i j k where x: "x = (i, j, k)"
    by (metis prod_cases3)
  have "find_longest_match eq a b alo ahi blo bhi = (i, j, k)"
    using 2(1) x by simp
  moreover have "k \<noteq> 0"
    using 2(2) x by simp
  ultimately show ?case
    using queue_push_size[of eq a b alo ahi blo bhi i j k queue] x by simp
next
  case (3 eq a b alo ahi blo bhi queue matching_blocks x)
  show ?case by (simp add: queue_size_def)
qed

fun collapse_adjacent ::
  "(nat \<times> nat \<times> nat) list \<Rightarrow> nat \<times> nat \<times> nat \<Rightarrow> (nat \<times> nat \<times> nat) list \<Rightarrow>
   (nat \<times> nat \<times> nat) list" where
  "collapse_adjacent [] (i1, j1, k1) non_adjacent =
     (if k1 \<noteq> 0 then non_adjacent @ [(i1, j1, k1)] else non_adjacent)"
| "collapse_adjacent ((i2, j2, k2) # blocks) (i1, j1, k1) non_adjacent =
     (if i1 + k1 = i2 \<and> j1 + k1 = j2
      then collapse_adjacent blocks (i1, j1, k1 + k2) non_adjacent
      else collapse_adjacent blocks (i2, j2, k2)
             (if k1 \<noteq> 0 then non_adjacent @ [(i1, j1, k1)] else non_adjacent))"

definition get_matching_blocks ::
  "('a \<Rightarrow> 'a \<Rightarrow> bool) \<Rightarrow> 'a list \<Rightarrow> 'a list \<Rightarrow> (nat \<times> nat \<times> nat) list" where
  "get_matching_blocks eq a b =
     (let la = length a; lb = length b;
          matching_blocks = sort (matching_blocks_loop eq a b [(0, la, 0, lb)] [])
      in collapse_adjacent matching_blocks (0, 0, 0) [] @ [(la, lb, 0)])"

fun opcodes_loop :: "(nat \<times> nat \<times> nat) list \<Rightarrow> nat \<Rightarrow> nat \<Rightarrow> opcode list \<Rightarrow> opcode list" where
  "opcodes_loop [] i j answer = answer"
| "opcodes_loop ((ai, bj, size') # blocks) i j answer =
     (let answer1 =
            (if i < ai \<and> j < bj then answer @ [(Replace, int i, int ai, int j, int bj)]
             else if i < ai then answer @ [(Delete, int i, int ai, int j, int bj)]
             else if j < bj then answer @ [(Insert, int i, int ai, int j, int bj)]
             else answer);
          i' = ai + size'; j' = bj + size'
      in opcodes_loop blocks i' j'
           (if size' \<noteq> 0 then answer1 @ [(Equal, int ai, int i', int bj, int j')] else answer1))"

definition get_opcodes :: "('a \<Rightarrow> 'a \<Rightarrow> bool) \<Rightarrow> 'a list \<Rightarrow> 'a list \<Rightarrow> opcode list" where
  "get_opcodes eq a b = opcodes_loop (get_matching_blocks eq a b) 0 0 []"

text \<open>
  \<open>get_grouped_opcodes(n)\<close>: \<open>group_loop\<close> is its \<open>for\<close> loop, with the groups yielded so
  far as an accumulator.
\<close>

fun group_loop :: "int \<Rightarrow> opcode list \<Rightarrow> opcode list \<Rightarrow> opcode list list \<Rightarrow> opcode list list" where
  "group_loop n [] group' yielded =
     (if group' \<noteq> [] \<and> \<not> (length group' = 1 \<and> fst (hd group') = Equal)
      then yielded @ [group'] else yielded)"
| "group_loop n ((tag, i1, i2, j1, j2) # codes) group' yielded =
     (if tag = Equal \<and> i2 - i1 > n + n
      then group_loop n codes [(tag, max i1 (i2 - n), i2, max j1 (j2 - n), j2)]
             (yielded @ [group' @ [(tag, i1, min i2 (i1 + n), j1, min j2 (j1 + n))]])
      else group_loop n codes (group' @ [(tag, i1, i2, j1, j2)]) yielded)"

definition fix_leading :: "int \<Rightarrow> opcode list \<Rightarrow> opcode list" where
  "fix_leading n codes =
     (case hd codes of (tag, i1, i2, j1, j2) \<Rightarrow>
        if tag = Equal then codes[0 := (tag, max i1 (i2 - n), i2, max j1 (j2 - n), j2)]
        else codes)"

definition fix_trailing :: "int \<Rightarrow> opcode list \<Rightarrow> opcode list" where
  "fix_trailing n codes =
     (case last codes of (tag, i1, i2, j1, j2) \<Rightarrow>
        if tag = Equal
        then codes[length codes - 1 := (tag, i1, min i2 (i1 + n), j1, min j2 (j1 + n))]
        else codes)"

definition get_grouped_opcodes ::
  "('a \<Rightarrow> 'a \<Rightarrow> bool) \<Rightarrow> 'a list \<Rightarrow> 'a list \<Rightarrow> int \<Rightarrow> opcode list list" where
  "get_grouped_opcodes eq a b n =
     (let codes = get_opcodes eq a b;
          codes = (if codes = [] then [(Equal, 0, 1, 0, 1)] else codes)
      in group_loop n (fix_trailing n (fix_leading n codes)) [] [])"

section \<open>Operations of the language on values\<close>

text \<open>
  \<open>==\<close> on values.  Lists and tuples compare element by element; sets and frozensets
  compare as sets, whatever their iteration order, and a set equals a frozenset with the
  same elements; dicts compare as sets of items.  The elements of a set and the keys of
  a dict are pairwise different, as the language guarantees.
\<close>

fun py_eq :: "pyval \<Rightarrow> pyval \<Rightarrow> bool"
and py_eq_list :: "pyval list \<Rightarrow> pyval list \<Rightarrow> bool" where
  "py_eq PNone b = (case b of PNone \<Rightarrow> True | _ \<Rightarrow> False)"
| "py_eq (PInt i) b = (case b of PInt j \<Rightarrow> i = j | _ \<Rightarrow> False)"
| "py_eq (PStr s) b = (case b of PStr t \<Rightarrow> s = t | _ \<Rightarrow> False)"
| "py_eq (PList xs) b = (case b of PList ys \<Rightarrow> py_eq_list xs ys | _ \<Rightarrow> False)"
| "py_eq (PTuple xs) b = (case b of PTuple ys \<Rightarrow> py_eq_list xs ys | _ \<Rightarrow> False)"
| "py_eq (PDict kvs) b =
     (case b of
        PDict kvs' \<Rightarrow>
          length kvs = length kvs'
          \<and> list_all (\<lambda>(k, v). list_ex (\<lambda>(k', v'). py_eq k k' \<and> py_eq v v') kvs') kvs
      | _ \<Rightarrow> False)"
| "py_eq (PSet xs) b =
     (case b of
        PSet ys \<Rightarrow> length xs = length ys \<and> list_all (\<lambda>x. list_ex (\<lambda>y. py_eq x y) ys) xs
      | PFrozenset ys \<Rightarrow>
          length xs = length ys \<and> list_all (\<lambda>x. list_ex (\<lambda>y. py_eq x y) ys) xs
      | _ \<Rightarrow> False)"
| "py_eq (PFrozenset xs) b =
     (case b of
        PSet ys \<Rightarrow> length xs = length ys \<and> list_all (\<lambda>x. list_ex (\<lambda>y. py_eq x y) ys) xs
      | PFrozenset ys \<Rightarrow>
          length xs = length ys \<and> list_all (\<lambda>x. list_ex (\<lambda>y. py_eq x y) ys) xs
      | _ \<Rightarrow> False)"
| "py_eq (PCallable f) b = (case b of PCallable g \<Rightarrow> f = g | _ \<Rightarrow> False)"
| "py_eq (PUnhashable m) b = (case b of PUnhashable n \<Rightarrow> m = n | _ \<Rightarrow> False)"
| "py_eq_list [] ys = (ys = [])"
| "py_eq_list (x # xs) ys =
     (case ys of [] \<Rightarrow> False | y # ys' \<Rightarrow> py_eq x y \<and> py_eq_list xs ys')"

text \<open>\<open>x in xs\<close> for the listing of a set, and the lookup of a key in the items of a dict.\<close>

definition py_in :: "pyval \<Rightarrow> pyval list \<Rightarrow> bool" where
  "py_in x xs = list_ex (\<lambda>y. py_eq y x) xs"

fun dict_get :: "(pyval \<times> pyval) list \<Rightarrow> pyval \<Rightarrow> pyval option" where
  "dict_get [] key = None"
| "dict_get ((k, v) # kvs) key = (if py_eq k key then Some v else dict_get kvs key)"

text \<open>\<open>callable(a)\<close>, \<open>isinstance(a, str)\<close>, and the test for \<open>intersection\<close> and \<open>difference\<close>.\<close>

fun callable :: "pyval \<Rightarrow> bool" where
  "callable (PCallable _) = True"
| "callable _ = False"

fun is_string :: "pyval \<Rightarrow> bool" where
  "is_string (PStr _) = True"
| "is_string _ = False"

fun is_setlike :: "pyval \<Rightarrow> bool" where
  "is_setlike (PSet _) = True"
| "is_setlike (PFrozenset _) = True"
| "is_setlike _ = False"

text \<open>
  Iteration (\<open>None\<close> when the value has neither \<open>__iter__\<close> nor \<open>__getitem__\<close>): a string
  gives its characters as strings of length one, a dict its keys.
\<close>

fun py_iter :: "pyval \<Rightarrow> pyval list option" where
  "py_iter (PStr s) = Some (map (\<lambda>c. PStr [c]) s)"
| "py_iter (PList xs) = Some xs"
| "py_iter (PTuple xs) = Some xs"
| "py_iter (PDict kvs) = Some (map fst kvs)"
| "py_iter (PSet xs) = Some xs"
| "py_iter (PFrozenset xs) = Some xs"
| "py_iter _ = None"

text \<open>
  A slice \<open>xs[i:j]\<close>: a negative index counts from the end and both are clamped to the
  length.  Strings, lists and tuples can be sliced; a slice of a dict or of a set raises
  \<open>TypeError\<close>.
\<close>

definition slice_index :: "nat \<Rightarrow> int \<Rightarrow> nat" where
  "slice_index n i = (if i < 0 then nat (max (i + int n) 0) else min (nat i) n)"

definition slice_list :: "'a list \<Rightarrow> int \<Rightarrow> int \<Rightarrow> 'a list" where
  "slice_list xs i j =
     (let lo = slice_index (length xs) i; hi = slice_index (length xs) j
      in take (hi - lo) (drop lo xs))"

fun py_slice :: "pyval \<Rightarrow> int \<Rightarrow> int \<Rightarrow> exn + pyval list" where
  "py_slice (PStr s) i j = Inr (slice_list (map (\<lambda>c. PStr [c]) s) i j)"
| "py_slice (PList xs) i j = Inr (slice_list xs i j)"
| "py_slice (PTuple xs) i j = Inr (slice_list xs i j)"
| "py_slice _ i j = Inl TypeError"

section \<open>The canonicalizer\<close>

text \<open>
  \<open>hash(ret)\<close> succeeds on scalars, functions and frozensets, and on a tuple when it
  succeeds on every element; lists, dicts, sets and the opaque unhashable objects raise
  \<open>TypeError\<close>.
\<close>

fun hash_ok :: "pyval \<Rightarrow> bool" where
  "hash_ok PNone = True"
| "hash_ok (PInt _) = True"
| "hash_ok (PStr _) = True"
| "hash_ok (PTuple xs) = list_all hash_ok xs"
| "hash_ok (PFrozenset _) = True"
| "hash_ok (PCallable _) = True"
| "hash_ok (PList _) = False"
| "hash_ok (PDict _) = False"
| "hash_ok (PSet _) = False"
| "hash_ok (PUnhashable _) = False"

text \<open>
  \<open>hashable\<close>.  Every exception raised inside the \<open>try\<close> is a \<open>TypeError\<close> (a failed
  \<open>hash\<close>, or the \<open>NotHashable\<close> of a recursive call), and is replaced by the
  \<open>NotHashable\<close> of the value at hand.  \<open>as_tuple\<close> is the recursive step on a tuple
  followed by the validation; the items of a dict are the tuples \<open>(key, value)\<close>.
\<close>

definition as_tuple :: "exn \<Rightarrow> (exn + pyval) list \<Rightarrow> exn + pyval" where
  "as_tuple err rs =
     (if list_all (\<lambda>r. \<not> isl r) rs \<and> hash_ok (PTuple (map projr rs))
      then Inr (PTuple (map projr rs)) else Inl err)"

definition as_frozenset :: "exn \<Rightarrow> (exn + pyval) list \<Rightarrow> exn + pyval" where
  "as_frozenset err rs =
     (if list_all (\<lambda>r. \<not> isl r) rs then Inr (PFrozenset (map projr rs)) else Inl err)"

fun hashable :: "pyval \<Rightarrow> exn + pyval" where
  "hashable (PList xs) = as_tuple (NotHashable TList (PList xs)) (map hashable xs)"
| "hashable (PTuple xs) = as_tuple (NotHashable TTuple (PTuple xs)) (map hashable xs)"
| "hashable (PDict kvs) =
     as_frozenset (NotHashable TDict (PDict kvs))
       (map (\<lambda>(k, v). as_tuple (NotHashable TTuple (PTuple [k, v])) [hashable k, hashable v]) kvs)"
| "hashable (PSet xs) = Inr (PFrozenset xs)"
| "hashable s = (if hash_ok s then Inr s else Inl (NotHashable (type_of s) s))"

text \<open>\<open>[hashable(_) for _ in a]\<close>: the first failure ends the comprehension.\<close>

fun hashable_all :: "pyval list \<Rightarrow> exn + pyval list" where
  "hashable_all [] = Inr []"
| "hashable_all (x # xs) =
     (case hashable x of
        Inl e \<Rightarrow> Inl e
      | Inr h \<Rightarrow> (case hashable_all xs of Inl e \<Rightarrow> Inl e | Inr hs \<Rightarrow> Inr (h # hs)))"

section \<open>The sequence differ\<close>

text \<open>
  The truth value of what \<open>diff\<close> returns (\<open>not nested_diff\<close>): \<open>__bool__\<close> for a tree, and
  the language's rule for a value (the text of a unified diff is a string).
\<close>

fun py_bool :: "pyval \<Rightarrow> bool" where
  "py_bool PNone = False"
| "py_bool (PInt i) = (i \<noteq> 0)"
| "py_bool (PStr s) = (s \<noteq> [])"
| "py_bool (PList xs) = (xs \<noteq> [])"
| "py_bool (PTuple xs) = (xs \<noteq> [])"
| "py_bool (PDict kvs) = (kvs \<noteq> [])"
| "py_bool (PSet xs) = (xs \<noteq> [])"
| "py_bool (PFrozenset xs) = (xs \<noteq> [])"
| "py_bool (PCallable _) = True"
| "py_bool (PUnhashable _) = True"

fun obj_bool :: "obj \<Rightarrow> bool" where
  "obj_bool (Tree t) = DataDiff_bool t"
| "obj_bool (Value v) = py_bool v"
| "obj_bool (Error _) = True"
| "obj_bool (Dictitem _ _ _) = True"

text \<open>\<open>compares_with_func(a, b)\<close> is \<open>callable(a) and a(b)\<close>.\<close>

definition compares_with_func :: "env \<Rightarrow> pyval \<Rightarrow> pyval \<Rightarrow> exn + bool" where
  "compares_with_func env a b =
     (case a of
        PCallable f \<Rightarrow> (case call env f b of Returns t \<Rightarrow> Inr t | Raises e \<Rightarrow> Inl e)
      | _ \<Rightarrow> Inr False)"

text \<open>
  The three differs call \<open>diff\<close> on the parts of their arguments.  They are defined first
  with the function they call as the parameter \<open>rec\<close>, which stands for
  \<open>diff(a2, b2, context, depth+1, compare_with_func=compare_with_func)\<close>; \<open>diff\<close> then
  passes itself.

  \<open>replace_pairs\<close> is the loop over \<open>zip(a[i1:i2], b[j1:j2])\<close> of a \<open>replace\<close> opcode; its
  state is \<open>chunk_ddiff\<close>, \<open>consecutive_deletes\<close>, \<open>consecutive_inserts\<close> and
  \<open>realy_diffs\<close>.
\<close>

type_synonym differ = "pyval \<Rightarrow> pyval \<Rightarrow> int \<Rightarrow> int \<Rightarrow> bool \<Rightarrow> exn + obj"

type_synonym replace_state = "datadiff \<times> obj list \<times> obj list \<times> bool"

fun replace_pairs ::
  "env \<Rightarrow> differ \<Rightarrow> int \<Rightarrow> int \<Rightarrow> bool \<Rightarrow> (pyval \<times> pyval) list \<Rightarrow> replace_state \<Rightarrow>
   exn + replace_state" where
  "replace_pairs env rec ctx depth cwf [] st = Inr st"
| "replace_pairs env rec ctx depth cwf ((a2, b2) # ps)
     (chunk_ddiff, consecutive_deletes, consecutive_inserts, realy_diffs) =
     (case compares_with_func env a2 b2 of
        Inl e \<Rightarrow> Inl e
      | Inr True \<Rightarrow>
          replace_pairs env rec ctx depth cwf ps
            (chunk_ddiff, consecutive_deletes, consecutive_inserts, realy_diffs)
      | Inr False \<Rightarrow>
          (case rec a2 b2 ctx (depth + 1) cwf of
             Inr nested_diff \<Rightarrow>
               (if \<not> obj_bool nested_diff
                then replace_pairs env rec ctx depth cwf ps
                       (chunk_ddiff, consecutive_deletes, consecutive_inserts, realy_diffs)
                else replace_pairs env rec ctx depth cwf ps
                       (nested nested_diff
                          (insert_multi consecutive_inserts
                             (delete_multi consecutive_deletes chunk_ddiff)),
                        [], [], True))
           | Inl e \<Rightarrow>
               (if is_DiffTypeError e
                then replace_pairs env rec ctx depth cwf ps
                       (chunk_ddiff, consecutive_deletes @ [Value a2],
                        consecutive_inserts @ [Value b2], True)
                else Inl e)))"

text \<open>
  The body of the loop over the opcodes of a chunk, on the state \<open>chunk_ddiff\<close>,
  \<open>realy_diffs\<close>.
\<close>

definition replace_opcode ::
  "env \<Rightarrow> differ \<Rightarrow> pyval \<Rightarrow> pyval \<Rightarrow> int \<Rightarrow> int \<Rightarrow> bool \<Rightarrow> int \<Rightarrow> int \<Rightarrow> int \<Rightarrow> int \<Rightarrow>
   datadiff \<times> bool \<Rightarrow> exn + datadiff \<times> bool" where
  "replace_opcode env rec a b ctx depth cwf i1 i2 j1 j2 st =
     (case py_slice a i1 i2 of
        Inl e \<Rightarrow> Inl e
      | Inr as \<Rightarrow>
     (case py_slice b j1 j2 of
        Inl e \<Rightarrow> Inl e
      | Inr bs \<Rightarrow>
     (case replace_pairs env rec ctx depth cwf (zip as bs) (fst st, [], [], snd st) of
        Inl e \<Rightarrow> Inl e
      | Inr (chunk_ddiff, consecutive_deletes, consecutive_inserts, realy_diffs) \<Rightarrow>
     (case (if i2 - i1 > j2 - j1 then py_slice a (i1 + (j2 - j1)) i2 else Inr []) of
        Inl e \<Rightarrow> Inl e
      | Inr a_tail \<Rightarrow>
     (case (if i2 - i1 < j2 - j1 then py_slice b (j1 + (i2 - i1)) j2 else Inr []) of
        Inl e \<Rightarrow> Inl e
      | Inr b_tail \<Rightarrow>
          Inr ((if i2 - i1 < j2 - j1 then insert_multi (map Value b_tail) else id)
                 (insert_multi consecutive_inserts
                    ((if i2 - i1 > j2 - j1 then delete_multi (map Value a_tail) else id)
                       (delete_multi consecutive_deletes chunk_ddiff))),
               realy_diffs))))))"

definition diff_seq_opcode ::
  "env \<Rightarrow> differ \<Rightarrow> pyval \<Rightarrow> pyval \<Rightarrow> int \<Rightarrow> int \<Rightarrow> bool \<Rightarrow> opcode \<Rightarrow>
   datadiff \<times> bool \<Rightarrow> exn + datadiff \<times> bool" where
  "diff_seq_opcode env rec a b ctx depth cwf opc st =
     (case opc of (change, i1, i2, j1, j2) \<Rightarrow>
        if change = Replace then replace_opcode env rec a b ctx depth cwf i1 i2 j1 j2 st
        else
          (case (if change = Insert then py_slice b j1 j2 else py_slice a i1 i2) of
             Inl e \<Rightarrow> Inl e
           | Inr items \<Rightarrow>
               Inr (multi change (map Value items) (fst st), snd st \<or> change \<noteq> Equal)))"

fun diff_seq_opcodes ::
  "env \<Rightarrow> differ \<Rightarrow> pyval \<Rightarrow> pyval \<Rightarrow> int \<Rightarrow> int \<Rightarrow> bool \<Rightarrow> opcode list \<Rightarrow>
   datadiff \<times> bool \<Rightarrow> exn + datadiff \<times> bool" where
  "diff_seq_opcodes env rec a b ctx depth cwf [] st = Inr st"
| "diff_seq_opcodes env rec a b ctx depth cwf (opc # chunk) st =
     (case diff_seq_opcode env rec a b ctx depth cwf opc st of
        Inl e \<Rightarrow> Inl e
      | Inr st' \<Rightarrow> diff_seq_opcodes env rec a b ctx depth cwf chunk st')"

text \<open>
  The body of the loop over the chunks: it returns the entries the chunk adds to
  \<open>ddiff.diffs\<close>.  \<open>clone\<close> cannot fail, since \<open>type_end_str\<close> is never \<open>None\<close>; an empty
  chunk fails at \<open>chunk[0]\<close>.  After the inner loop \<open>i2\<close> is the end index in \<open>a\<close> of the
  last opcode of the chunk.
\<close>

definition clone :: "datadiff \<Rightarrow> datadiff" where
  "clone self =
     DataDiff [] (datatype' self) (type_start_str self) (type_end_str self)
       (fromfile self) (tofile self)"

definition py_len :: "pyval \<Rightarrow> int" where
  "py_len a = (case py_iter a of Some xs \<Rightarrow> int (length xs) | None \<Rightarrow> 0)"

definition diff_seq_chunk ::
  "env \<Rightarrow> differ \<Rightarrow> pyval \<Rightarrow> pyval \<Rightarrow> int \<Rightarrow> int \<Rightarrow> bool \<Rightarrow> datadiff \<Rightarrow> opcode list \<Rightarrow>
   exn + diffentry list" where
  "diff_seq_chunk env rec a b ctx depth cwf ddiff chunk =
     (if chunk = [] then Inl IndexError
      else
        (case (hd chunk, last chunk) of ((c0, f1, f2, f3, f4), (c1, l1, l2, l3, l4)) \<Rightarrow>
           (case diff_seq_opcodes env rec a b ctx depth cwf chunk
                   (context' (max (f1 - 1) 0) (max (l2 - 1) 0) (max (f3 - 1) 0) (max (l4 - 1) 0)
                      (clone ddiff),
                    \<not> cwf) of
              Inl e \<Rightarrow> Inl e
            | Inr (chunk_ddiff, realy_diffs) \<Rightarrow>
                (let chunk_ddiff' =
                       (if l2 < py_len a then context_end_container chunk_ddiff
                        else chunk_ddiff)
                 in Inr (if realy_diffs then diffs chunk_ddiff' else [])))))"

fun diff_seq_chunks ::
  "env \<Rightarrow> differ \<Rightarrow> pyval \<Rightarrow> pyval \<Rightarrow> int \<Rightarrow> int \<Rightarrow> bool \<Rightarrow> opcode list list \<Rightarrow> datadiff \<Rightarrow>
   exn + datadiff" where
  "diff_seq_chunks env rec a b ctx depth cwf [] ddiff = Inr ddiff"
| "diff_seq_chunks env rec a b ctx depth cwf (chunk # chunks) ddiff =
     (case diff_seq_chunk env rec a b ctx depth cwf ddiff chunk of
        Inl e \<Rightarrow> Inl e
      | Inr ds \<Rightarrow> diff_seq_chunks env rec a b ctx depth cwf chunks (diffs_extend ds ddiff))"

text \<open>
  \<open>diff_seq\<close>.  A value that cannot be iterated has neither \<open>__iter__\<close> nor
  \<open>__getitem__\<close>; iterating such a \<open>b\<close> raises \<open>TypeError\<close>.  The matcher compares the
  canonical keys with \<open>==\<close>.
\<close>

definition diff_seq_with ::
  "env \<Rightarrow> differ \<Rightarrow> pyval \<Rightarrow> pyval \<Rightarrow> int \<Rightarrow> int \<Rightarrow> string \<Rightarrow> string \<Rightarrow> bool \<Rightarrow> exn + datadiff" where
  "diff_seq_with env rec a b ctx depth ff tf cwf =
     (case py_iter a of
        None \<Rightarrow> Inl (NotSequence (type_of a))
      | Some xs \<Rightarrow>
     (case hashable_all xs of
        Inl e \<Rightarrow> Inl e
      | Inr hashable_a \<Rightarrow>
     (case py_iter b of
        None \<Rightarrow> Inl TypeError
      | Some ys \<Rightarrow>
     (case hashable_all ys of
        Inl e \<Rightarrow> Inl e
      | Inr hashable_b \<Rightarrow>
     (case (if type_of a = TTuple then DataDiff_init TTuple (Some ''('') (Some '')'') ff tf
            else if type_of b = TList then DataDiff_init TList (Some ''['') (Some '']'') ff tf
            else DataDiff_init (type_of a) None None ff tf) of
        Inl e \<Rightarrow> Inl e
      | Inr ddiff \<Rightarrow>
          diff_seq_chunks env rec a b ctx depth cwf
            (get_grouped_opcodes py_eq hashable_a hashable_b ctx) ddiff)))))"

text \<open>\<open>try_diff_seq\<close>: \<open>NotHashable\<close> is raised again, anything else becomes \<open>NotSequence\<close>.\<close>

definition try_diff_seq_with ::
  "env \<Rightarrow> differ \<Rightarrow> pyval \<Rightarrow> pyval \<Rightarrow> int \<Rightarrow> int \<Rightarrow> string \<Rightarrow> string \<Rightarrow> bool \<Rightarrow> exn + datadiff" where
  "try_diff_seq_with env rec a b ctx depth ff tf cwf =
     (case diff_seq_with env rec a b ctx depth ff tf cwf of
        Inr ddiff \<Rightarrow> Inr ddiff
      | Inl e \<Rightarrow> if is_NotHashable e then Inl e else Inl (NotSequence (type_of a)))"

section \<open>The mapping differ\<close>

text \<open>
  The loop over \<open>a.keys()\<close>, on the state \<open>ddiff\<close>, \<open>context\<close>.  A \<open>dictitem\<close> made here has
  no \<open>depth\<close>, unless it wraps a nested diff.  \<open>add_equal\<close> is the end of the loop body.
\<close>

definition add_equal :: "pyval \<Rightarrow> pyval \<Rightarrow> datadiff \<times> int \<Rightarrow> datadiff \<times> int" where
  "add_equal key bv st =
     (case st of (ddiff, ctx) \<Rightarrow>
        ((if ctx \<noteq> 0 then equal_item (Dictitem key (Value bv) None) ddiff else ddiff), ctx - 1))"

definition delete_insert :: "pyval \<Rightarrow> obj \<Rightarrow> pyval \<Rightarrow> datadiff \<Rightarrow> datadiff" where
  "delete_insert key av bv ddiff =
     insert_item (Dictitem key (Value bv) None) (delete (Dictitem key av None) ddiff)"

definition diff_dict_key ::
  "env \<Rightarrow> differ \<Rightarrow> (pyval \<times> pyval) list \<Rightarrow> (pyval \<times> pyval) list \<Rightarrow> int \<Rightarrow> bool \<Rightarrow>
   pyval \<Rightarrow> datadiff \<times> int \<Rightarrow> exn + datadiff \<times> int" where
  "diff_dict_key env rec a b depth cwf key st =
     (case dict_get a key of
        None \<Rightarrow> Inl KeyError
      | Some av \<Rightarrow>
     (case dict_get b key of
        None \<Rightarrow> Inr (delete (Dictitem key (Value av) None) (fst st), snd st)
      | Some bv \<Rightarrow>
          if \<not> py_eq av bv then
            (if cwf \<and> callable av then
               (case compares_with_func env av bv of
                  Inr True \<Rightarrow> Inr (add_equal key bv st)
                | Inr False \<Rightarrow> Inr (delete_insert key (Value av) bv (fst st), snd st)
                | Inl e \<Rightarrow> Inr (delete_insert key (Error e) bv (fst st), snd st))
             else
               (case rec av bv (snd st) (depth + 1) cwf of
                  Inr nested_diff \<Rightarrow>
                    (if \<not> obj_bool nested_diff then Inr (add_equal key bv st)
                     else Inr (nested (Dictitem key nested_diff (Some (depth + 1))) (fst st),
                               snd st))
                | Inl e \<Rightarrow>
                    (if is_DiffTypeError e
                     then Inr (delete_insert key (Value av) bv (fst st), snd st)
                     else Inl e)))
          else Inr (add_equal key bv st)))"

fun diff_dict_keys ::
  "env \<Rightarrow> differ \<Rightarrow> (pyval \<times> pyval) list \<Rightarrow> (pyval \<times> pyval) list \<Rightarrow> int \<Rightarrow> bool \<Rightarrow>
   pyval list \<Rightarrow> datadiff \<times> int \<Rightarrow> exn + datadiff \<times> int" where
  "diff_dict_keys env rec a b depth cwf [] st = Inr st"
| "diff_dict_keys env rec a b depth cwf (key # keys) st =
     (case diff_dict_key env rec a b depth cwf key st of
        Inl e \<Rightarrow> Inl e
      | Inr st' \<Rightarrow> diff_dict_keys env rec a b depth cwf keys st')"

text \<open>
  The loop over the keys of \<open>b\<close>; the keys of a dict are pairwise different, so \<open>b[key]\<close>
  is the value listed with the key.
\<close>

fun insert_new_keys ::
  "(pyval \<times> pyval) list \<Rightarrow> (pyval \<times> pyval) list \<Rightarrow> datadiff \<Rightarrow> datadiff" where
  "insert_new_keys a [] ddiff = ddiff"
| "insert_new_keys a ((key, bv) # b) ddiff =
     insert_new_keys a b
       (if dict_get a key = None then insert_item (Dictitem key (Value bv) None) ddiff
        else ddiff)"

text \<open>
  The sort key.  \<open>x[0]\<close> on a stored object: the first element of a sequence, the entry
  of a dict under the key \<open>0\<close>, the key of a \<open>dictitem\<close>; the other objects cannot be
  subscripted.  \<open>items_getitem0\<close> is \<open>[0]\<close> on the second component of an entry: for a
  change run the list of its items, for a context marker the list of its four indices,
  for the end marker the empty list.
\<close>

datatype sortkey = KStr string | KNum int

fun py_getitem0 :: "pyval \<Rightarrow> exn + pyval" where
  "py_getitem0 (PStr []) = Inl IndexError"
| "py_getitem0 (PStr (c # s)) = Inr (PStr [c])"
| "py_getitem0 (PList []) = Inl IndexError"
| "py_getitem0 (PList (x # xs)) = Inr x"
| "py_getitem0 (PTuple []) = Inl IndexError"
| "py_getitem0 (PTuple (x # xs)) = Inr x"
| "py_getitem0 (PDict kvs) =
     (case dict_get kvs (PInt 0) of None \<Rightarrow> Inl KeyError | Some v \<Rightarrow> Inr v)"
| "py_getitem0 _ = Inl TypeError"

fun obj_getitem0 :: "obj \<Rightarrow> exn + pyval" where
  "obj_getitem0 (Value v) = py_getitem0 v"
| "obj_getitem0 (Dictitem key val dp) = Inr key"
| "obj_getitem0 (Error _) = Inl TypeError"
| "obj_getitem0 (Tree _) = Inl TypeError"

fun sort_key_of :: "env \<Rightarrow> pyval \<Rightarrow> exn + sortkey" where
  "sort_key_of env (PStr s) = Inr (KStr s)"
| "sort_key_of env (PInt i) = Inr (KNum i)"
| "sort_key_of env key = (if hash_ok key then Inr (KNum (abs (pyhash env key))) else Inl TypeError)"

fun diffitem_dictitem_sort_key :: "env \<Rightarrow> diffentry \<Rightarrow> exn + sortkey" where
  "diffitem_dictitem_sort_key env (Datadiff (Tree t)) = Inr (KNum 0)"
| "diffitem_dictitem_sort_key env (Datadiff dictitem) =
     (case obj_getitem0 dictitem of
        Inl e \<Rightarrow> Inl e
      | Inr x \<Rightarrow> (case py_getitem0 x of Inl e \<Rightarrow> Inl e | Inr key \<Rightarrow> sort_key_of env key))"
| "diffitem_dictitem_sort_key env (Multi change []) = Inl IndexError"
| "diffitem_dictitem_sort_key env (Multi change (x # xs)) =
     (case obj_getitem0 x of Inl e \<Rightarrow> Inl e | Inr key \<Rightarrow> sort_key_of env key)"
| "diffitem_dictitem_sort_key env (Context a0 a1 b0 b1) = Inl TypeError"
| "diffitem_dictitem_sort_key env ContextEndContainer = Inl IndexError"

text \<open>
  \<open>ddiff.diffs.sort(key=...)\<close>: the keys are computed first; the sort is stable; strings
  are ordered among themselves and numbers among themselves, and comparing a string with
  a number raises \<open>TypeError\<close>.  A list of fewer than two entries is not compared at all.
\<close>

fun sort_keys :: "env \<Rightarrow> diffentry list \<Rightarrow> exn + sortkey list" where
  "sort_keys env [] = Inr []"
| "sort_keys env (d # ds) =
     (case diffitem_dictitem_sort_key env d of
        Inl e \<Rightarrow> Inl e
      | Inr k \<Rightarrow> (case sort_keys env ds of Inl e \<Rightarrow> Inl e | Inr ks \<Rightarrow> Inr (k # ks)))"

fun the_KStr :: "sortkey \<Rightarrow> string" where
  "the_KStr (KStr s) = s"
| "the_KStr (KNum _) = []"

fun the_KNum :: "sortkey \<Rightarrow> int" where
  "the_KNum (KNum i) = i"
| "the_KNum (KStr _) = 0"

fun is_KStr :: "sortkey \<Rightarrow> bool" where
  "is_KStr (KStr _) = True"
| "is_KStr (KNum _) = False"

definition sort_diffs :: "env \<Rightarrow> diffentry list \<Rightarrow> exn + diffentry list" where
  "sort_diffs env ds =
     (case sort_keys env ds of
        Inl e \<Rightarrow> Inl e
      | Inr ks \<Rightarrow>
          if length ds < 2 then Inr ds
          else if list_all is_KStr ks
          then Inr (map snd (sort_key (\<lambda>p. the_KStr (fst p)) (zip ks ds)))
          else if list_all (\<lambda>k. \<not> is_KStr k) ks
          then Inr (map snd (sort_key (\<lambda>p. the_KNum (fst p)) (zip ks ds)))
          else Inl TypeError)"

definition diff_dict_with ::
  "env \<Rightarrow> differ \<Rightarrow> (pyval \<times> pyval) list \<Rightarrow> (pyval \<times> pyval) list \<Rightarrow> int \<Rightarrow> int \<Rightarrow>
   string \<Rightarrow> string \<Rightarrow> bool \<Rightarrow> exn + datadiff" where
  "diff_dict_with env rec a b ctx depth ff tf cwf =
     (case DataDiff_init TDict (Some ''{'') (Some ''}'') ff tf of
        Inl e \<Rightarrow> Inl e
      | Inr ddiff0 \<Rightarrow>
     (case diff_dict_keys env rec a b depth cwf (map fst a) (ddiff0, ctx) of
        Inl e \<Rightarrow> Inl e
      | Inr (ddiff1, ctx') \<Rightarrow>
     (let ddiff2 = insert_new_keys a b ddiff1 in
      case sort_diffs env (diffs ddiff2) of
        Inl e \<Rightarrow> Inl e
      | Inr sorted_diffs \<Rightarrow>
          (let ddiff3 = DataDiff sorted_diffs (datatype' ddiff2) (type_start_str ddiff2)
                          (type_end_str ddiff2) (fromfile ddiff2) (tofile ddiff2)
           in Inr (if ctx' < 0 then context_end_container ddiff3 else ddiff3)))))"

section \<open>The set differ\<close>

text \<open>
  \<open>a - b\<close>, \<open>b - a\<close> and \<open>a.intersection(b)\<close> are newly built sets.  The order in which
  the language iterates such a set is fixed by neither operand: \<open>set_iter env\<close> gives it, from
  the elements of the new set (listed here in the order of the left operand), and is meant to
  return a permutation of them.  \<open>equal[:context]\<close> is a slice of \<open>list(a.intersection(b))\<close>
  from the start.
\<close>

definition diff_set ::
  "env \<Rightarrow> pyval list \<Rightarrow> pyval list \<Rightarrow> pytype \<Rightarrow> int \<Rightarrow> int \<Rightarrow> string \<Rightarrow> string
     \<Rightarrow> exn + datadiff" where
  "diff_set env a b ty ctx depth ff tf =
     (case DataDiff_init ty None None ff tf of
        Inl e \<Rightarrow> Inl e
      | Inr ddiff \<Rightarrow>
          (let ddiff1 = delete_multi (map Value (set_iter env (filter (\<lambda>x. \<not> py_in x b) a))) ddiff;
               ddiff2 = insert_multi (map Value (set_iter env (filter (\<lambda>x. \<not> py_in x a) b))) ddiff1;
               equal = set_iter env (filter (\<lambda>x. py_in x b) a);
               ddiff3 = equal_multi (map Value (slice_list equal 0 ctx)) ddiff2
           in Inr (if int (length equal) > ctx then context_end_container ddiff3 else ddiff3)))"

section \<open>Text\<close>

text \<open>
  \<open>unified_diff_strings\<close> joins the lines that the standard library's \<open>unified_diff\<close>
  yields for the two texts split at line breaks, with empty file dates and an empty
  line terminator.
\<close>

fun split_on :: "char \<Rightarrow> string \<Rightarrow> string list" where
  "split_on c [] = [[]]"
| "split_on c (x # xs) =
     (if x = c then [] # split_on c xs
      else (case split_on c xs of [] \<Rightarrow> [[x]] | r # rs \<Rightarrow> (x # r) # rs))"

definition format_range_unified :: "int \<Rightarrow> int \<Rightarrow> string" where
  "format_range_unified start stop =
     (let beginning = start + 1; length' = stop - start
      in if length' = 1 then str_int beginning
         else str_int (if length' = 0 then beginning - 1 else beginning)
              @ '','' @ str_int length')"

definition opcode_lines :: "string list \<Rightarrow> string list \<Rightarrow> opcode \<Rightarrow> string list" where
  "opcode_lines a b opc =
     (case opc of (tag, i1, i2, j1, j2) \<Rightarrow>
        if tag = Equal then map (\<lambda>line. '' '' @ line) (slice_list a i1 i2)
        else
          (if tag = Replace \<or> tag = Delete
           then map (\<lambda>line. ''-'' @ line) (slice_list a i1 i2) else [])
          @ (if tag = Replace \<or> tag = Insert
             then map (\<lambda>line. ''+'' @ line) (slice_list b j1 j2) else []))"

definition group_lines :: "string list \<Rightarrow> string list \<Rightarrow> opcode list \<Rightarrow> string list" where
  "group_lines a b group' =
     (case (hd group', last group') of ((t0, f1, f2, f3, f4), (t1, l1, l2, l3, l4)) \<Rightarrow>
        (''@@ -'' @ format_range_unified f1 l2 @ '' +'' @ format_range_unified f3 l4 @ '' @@'')
        # concat (map (opcode_lines a b) group'))"

definition unified_diff :: "string list \<Rightarrow> string list \<Rightarrow> string \<Rightarrow> string \<Rightarrow> int \<Rightarrow> string list" where
  "unified_diff a b ff tf n =
     (let groups = get_grouped_opcodes (=) a b n
      in if groups = [] then []
         else [''--- '' @ ff, ''+++ '' @ tf] @ concat (map (group_lines a b) groups))"

definition unified_diff_strings :: "string \<Rightarrow> string \<Rightarrow> string \<Rightarrow> string \<Rightarrow> int \<Rightarrow> string" where
  "unified_diff_strings a b ff tf ctx =
     join [newline] (unified_diff (split_on newline a) (split_on newline b) ff tf ctx)"

section \<open>The dispatcher\<close>

fun the_str :: "pyval \<Rightarrow> string" where
  "the_str (PStr s) = s"
| "the_str _ = []"

fun dict_items :: "pyval \<Rightarrow> (pyval \<times> pyval) list" where
  "dict_items (PDict kvs) = kvs"
| "dict_items _ = []"

fun set_elements :: "pyval \<Rightarrow> pyval list" where
  "set_elements (PSet xs) = xs"
| "set_elements (PFrozenset xs) = xs"
| "set_elements _ = []"

text \<open>
  The differs depend on \<open>rec\<close> only at the parts of \<open>a\<close>: the pairs of the loop, the
  elements of a sequence, the values of a dict.
\<close>

lemma replace_pairs_cong:
  assumes "\<And>a2 b2 c d w. a2 \<in> fst ` set ps \<Longrightarrow> rec a2 b2 c d w = rec' a2 b2 c d w"
  shows "replace_pairs env rec ctx depth cwf ps st = replace_pairs env rec' ctx depth cwf ps st"
  using assms
proof (induction ps arbitrary: st)
  case Nil
  show ?case by simp
next
  case (Cons p ps)
  obtain a2 b2 where p: "p = (a2, b2)" by (cases p)
  obtain cd dels ins realy where st: "st = (cd, dels, ins, realy)" by (cases st)
  have r: "rec a2 b2 ctx (depth + 1) cwf = rec' a2 b2 ctx (depth + 1) cwf"
    using Cons.prems[of a2] p by simp
  have ih: "\<And>s. replace_pairs env rec ctx depth cwf ps s = replace_pairs env rec' ctx depth cwf ps s"
    using Cons.IH Cons.prems by simp
  show ?case
    unfolding p st by (simp add: r ih split: sum.splits bool.splits)
qed

lemma slice_list_subset: "set (slice_list xs i j) \<subseteq> set xs"
  unfolding slice_list_def Let_def
  by (meson set_take_subset set_drop_subset subset_trans)

lemma py_slice_subset:
  "py_slice a i j = Inr s \<Longrightarrow> py_iter a = Some xs \<Longrightarrow> set s \<subseteq> set xs"
  by (cases a) (auto dest: slice_list_subset[THEN subsetD])

lemma replace_opcode_cong:
  assumes "py_iter a = Some xs"
    and "\<And>a2 b2 c d w. a2 \<in> set xs \<Longrightarrow> rec a2 b2 c d w = rec' a2 b2 c d w"
  shows "replace_opcode env rec a b ctx depth cwf i1 i2 j1 j2 st
         = replace_opcode env rec' a b ctx depth cwf i1 i2 j1 j2 st"
proof (cases "py_slice a i1 i2")
  case (Inl e)
  then show ?thesis by (simp add: replace_opcode_def)
next
  case (Inr as)
  have "\<And>bs s. replace_pairs env rec ctx depth cwf (zip as bs) s
               = replace_pairs env rec' ctx depth cwf (zip as bs) s"
  proof (rule replace_pairs_cong)
    fix bs a2 b2 c d w
    assume "a2 \<in> fst ` set (zip as bs)"
    then have "a2 \<in> set as"
      by (auto dest: set_zip_leftD)
    then show "rec a2 b2 c d w = rec' a2 b2 c d w"
      using py_slice_subset[OF Inr assms(1)] assms(2) by blast
  qed
  then show ?thesis
    by (simp add: replace_opcode_def Inr split: sum.splits)
qed

lemma diff_seq_opcodes_cong:
  assumes "py_iter a = Some xs"
    and "\<And>a2 b2 c d w. a2 \<in> set xs \<Longrightarrow> rec a2 b2 c d w = rec' a2 b2 c d w"
  shows "diff_seq_opcodes env rec a b ctx depth cwf chunk st
         = diff_seq_opcodes env rec' a b ctx depth cwf chunk st"
proof (induction chunk arbitrary: st)
  case Nil
  show ?case by simp
next
  case (Cons opc chunk)
  have "diff_seq_opcode env rec a b ctx depth cwf opc st
        = diff_seq_opcode env rec' a b ctx depth cwf opc st"
    using replace_opcode_cong[OF assms]
    by (simp add: diff_seq_opcode_def split: prod.splits)
  then show ?case
    using Cons.IH by (simp split: sum.splits)
qed

lemma diff_seq_chunks_cong:
  assumes "py_iter a = Some xs"
    and "\<And>a2 b2 c d w. a2 \<in> set xs \<Longrightarrow> rec a2 b2 c d w = rec' a2 b2 c d w"
  shows "diff_seq_chunks env rec a b ctx depth cwf chunks ddiff
         = diff_seq_chunks env rec' a b ctx depth cwf chunks ddiff"
proof (induction chunks arbitrary: ddiff)
  case Nil
  show ?case by simp
next
  case (Cons chunk chunks)
  have "diff_seq_chunk env rec a b ctx depth cwf ddiff chunk
        = diff_seq_chunk env rec' a b ctx depth cwf ddiff chunk"
    using diff_seq_opcodes_cong[OF assms]
    by (simp add: diff_seq_chunk_def)
  then show ?case
    using Cons.IH by (simp split: sum.splits)
qed

definition elements :: "pyval \<Rightarrow> pyval list" where
  "elements a = (case py_iter a of Some xs \<Rightarrow> xs | None \<Rightarrow> [])"

lemma try_diff_seq_with_cong [fundef_cong]:
  assumes "env = env'" "a = a'" "b = b'" "ctx = ctx'" "depth = depth'" "ff = ff'" "tf = tf'"
    "cwf = cwf'"
    and "\<And>a2 b2 c d w. a2 \<in> set (elements a') \<Longrightarrow> rec a2 b2 c d w = rec' a2 b2 c d w"
  shows "try_diff_seq_with env rec a b ctx depth ff tf cwf
         = try_diff_seq_with env' rec' a' b' ctx' depth' ff' tf' cwf'"
proof (cases "py_iter a'")
  case None
  then show ?thesis
    using assms(1-8) by (simp add: try_diff_seq_with_def diff_seq_with_def)
next
  case (Some xs)
  have "\<And>chunks ddiff. diff_seq_chunks env' rec a' b' ctx' depth' cwf' chunks ddiff
         = diff_seq_chunks env' rec' a' b' ctx' depth' cwf' chunks ddiff"
    by (rule diff_seq_chunks_cong[OF Some]) (use assms(9) Some in \<open>simp add: elements_def\<close>)
  then have "diff_seq_with env' rec a' b' ctx' depth' ff' tf' cwf'
             = diff_seq_with env' rec' a' b' ctx' depth' ff' tf' cwf'"
    unfolding diff_seq_with_def
    by (simp cong: option.case_cong sum.case_cong)
  then show ?thesis
    using assms(1-8) by (simp add: try_diff_seq_with_def)
qed

lemma diff_dict_keys_cong:
  assumes "\<And>a2 b2 c d w. a2 \<in> snd ` set a \<Longrightarrow> rec a2 b2 c d w = rec' a2 b2 c d w"
  shows "diff_dict_keys env rec a b depth cwf keys st
         = diff_dict_keys env rec' a b depth cwf keys st"
proof (induction keys arbitrary: st)
  case Nil
  show ?case by simp
next
  case (Cons key keys)
  have mem: "\<And>av. dict_get a key = Some av \<Longrightarrow> av \<in> snd ` set a"
    by (induction a) (auto split: if_splits)
  have "diff_dict_key env rec a b depth cwf key st = diff_dict_key env rec' a b depth cwf key st"
    using assms mem by (auto simp: diff_dict_key_def split: option.splits)
  then show ?case
    using Cons.IH by (simp split: sum.splits)
qed

lemma diff_dict_with_cong [fundef_cong]:
  assumes "env = env'" "a = a'" "b = b'" "ctx = ctx'" "depth = depth'" "ff = ff'" "tf = tf'"
    "cwf = cwf'"
    and "\<And>a2 b2 c d w. a2 \<in> snd ` set a' \<Longrightarrow> rec a2 b2 c d w = rec' a2 b2 c d w"
  shows "diff_dict_with env rec a b ctx depth ff tf cwf
         = diff_dict_with env' rec' a' b' ctx' depth' ff' tf' cwf'"
  using assms(1-8) diff_dict_keys_cong[of a' rec rec' env', OF assms(9)]
  by (simp add: diff_dict_with_def DataDiff_init_def)

text \<open>
  \<open>diff\<close>.  The recursive calls of the differs leave \<open>fromfile\<close> and \<open>tofile\<close> at their
  defaults.  A callable is taken to raise, if it raises, a subclass of \<open>Exception\<close>.
\<close>

function diff ::
  "env \<Rightarrow> pyval \<Rightarrow> pyval \<Rightarrow> int \<Rightarrow> int \<Rightarrow> string \<Rightarrow> string \<Rightarrow> bool \<Rightarrow> exn + obj" where
  "diff env a b ctx depth ff tf cwf =
     (if is_string a \<and> is_string b then
        (if newline \<in> set (the_str a) \<or> newline \<in> set (the_str b)
         then Inr (Value (PStr (unified_diff_strings (the_str a) (the_str b) ff tf ctx)))
         else Inl (DiffNotImplementedForType TStr))
      else if type_of a \<noteq> type_of b then
        (if cwf \<and> callable a then
           (case DataDiff_init (type_of b) None None ff tf of
              Inl e \<Rightarrow> Inl e
            | Inr ddiff \<Rightarrow>
                (case compares_with_func env a b of
                   Inr True \<Rightarrow> Inr (Tree (equal_item (Value b) ddiff))
                 | Inr False \<Rightarrow> Inr (Tree (insert_item (Value b) (delete (Value a) ddiff)))
                 | Inl e \<Rightarrow> Inr (Tree (insert_item (Value b) (delete (Error e) ddiff)))))
         else Inl (DiffTypeError ff tf (type_of a) (type_of b) a b))
      else if type_of a = TDict then
        (case diff_dict_with env (\<lambda>a2 b2 c d w. diff env a2 b2 c d ''a'' ''b'' w)
                (dict_items a) (dict_items b) ctx depth ff tf cwf of
           Inl e \<Rightarrow> Inl e
         | Inr ddiff \<Rightarrow> Inr (Tree ddiff))
      else if is_setlike a then
        (case diff_set env (set_elements a) (set_elements b) (type_of a) ctx depth ff tf of
           Inl e \<Rightarrow> Inl e
         | Inr ddiff \<Rightarrow> Inr (Tree ddiff))
      else
        (case try_diff_seq_with env (\<lambda>a2 b2 c d w. diff env a2 b2 c d ''a'' ''b'' w)
                a b ctx depth ff tf cwf of
           Inr ddiff \<Rightarrow> Inr (Tree ddiff)
         | Inl e \<Rightarrow>
             if is_NotSequence e then Inl (DiffNotImplementedForType (type_of a)) else Inl e))"
  by pat_completeness auto

lemma is_string_type: "is_string a = (type_of a = TStr)"
  by (cases a) simp_all

lemma size_dict_value: "a2 \<in> snd ` set (dict_items a) \<Longrightarrow> size a2 < size a"
proof (cases a)
  case (PDict kvs)
  assume "a2 \<in> snd ` set (dict_items a)"
  then obtain k where "(k, a2) \<in> set kvs"
    using PDict by auto
  then have "size_prod size size (k, a2) \<le> size_list (size_prod size size) kvs"
    by (simp add: size_list_estimation')
  then show ?thesis
    using PDict by simp
qed auto

lemma size_element: "\<not> is_string a \<Longrightarrow> \<not> is_setlike a \<Longrightarrow> type_of a \<noteq> TDict \<Longrightarrow>
  a2 \<in> set (elements a) \<Longrightarrow> size a2 < size a"
proof (cases a)
  case (PList xs)
  assume "a2 \<in> set (elements a)"
  then have "size a2 \<le> size_list size xs"
    using PList by (simp add: elements_def size_list_estimation')
  then show ?thesis
    using PList by simp
next
  case (PTuple xs)
  assume "a2 \<in> set (elements a)"
  then have "size a2 \<le> size_list size xs"
    using PTuple by (simp add: elements_def size_list_estimation')
  then show ?thesis
    using PTuple by simp
qed (auto simp: elements_def)

termination diff
proof (relation "measure (\<lambda>(env, a, b, ctx, depth, ff, tf, cwf). size a)", goal_cases)
  case 1
  show ?case by simp
next
  case 2
  then show ?case by (simp add: size_dict_value)
next
  case 3
  then show ?case
    by (auto simp: size_element is_string_type)
qed

declare diff.simps [simp del]




section \<open>Notions for the properties\<close>

subsection \<open>An environment for the examples\<close>

text \<open>
  One callable that accepts nothing, one that accepts everything and one that raises;
  the hash and the textual forms play no part in the examples, and neither does the order
  of a newly built set: the sets of the examples have one element.
\<close>

definition example_env :: env where
  "example_env =
     \<lparr>call = (\<lambda>f b. if f = 0 then Returns False
                     else if f = 1 then Returns True
                     else Raises (Exception ''refused'')),
      pyhash = (\<lambda>v. 0),
      repr = (\<lambda>v. ''<value>''),
      repr_exn = (\<lambda>e. ''<exception>''),
      repr_datadiff = (\<lambda>d. ''<DataDiff>''),
      set_iter = (\<lambda>xs. xs)\<rparr>"

subsection \<open>Unhashable leaves\<close>


subsection \<open>The variants of a value\<close>



subsection \<open>The entries of a tree\<close>

text \<open>The items of the \<open>delete\<close> runs and of the \<open>insert\<close> runs of a list of entries.\<close>

fun deleted_items :: "diffentry list \<Rightarrow> obj list" where
  "deleted_items [] = []"
| "deleted_items (Multi Delete items # ds) = items @ deleted_items ds"
| "deleted_items (_ # ds) = deleted_items ds"

fun inserted_items :: "diffentry list \<Rightarrow> obj list" where
  "inserted_items [] = []"
| "inserted_items (Multi Insert items # ds) = items @ inserted_items ds"
| "inserted_items (_ # ds) = inserted_items ds"

fun is_run :: "diffentry \<Rightarrow> bool" where
  "is_run (Multi _ _) = True"
| "is_run (Datadiff _) = True"
| "is_run _ = False"

section \<open>Properties\<close>

subsection \<open>Rendering and the dispatcher\<close>

text \<open>
  C10.  A tree with no entries renders as the empty string, at every depth and with or
  without the preamble requested: neither the \<open>---\<close>/\<open>+++\<close> lines nor the delimiters are
  written.
\<close>

theorem stringify_no_entries:
  "stringify env (DataDiff [] ty start_str end_str ff tf) depth include_preamble = Inr []"
  by simp

text \<open>
  C8.  Two strings without a line break are refused with
  \<open>DiffNotImplementedForType(str)\<close>, whatever the options: no tree is built for them.
\<close>

theorem diff_single_line_strings:
  assumes "newline \<notin> set s" and "newline \<notin> set t"
  shows "diff env (PStr s) (PStr t) ctx depth ff tf cwf = Inl (DiffNotImplementedForType TStr)"
  using assms by (simp add: diff.simps)

theorem diff_single_line_strings_witness:
  "newline \<notin> set ''kitten'' \<and> newline \<notin> set ''sitting''
   \<and> diff example_env (PStr ''kitten'') (PStr ''sitting'') 3 0 ''a'' ''b'' False
       = Inl (DiffNotImplementedForType TStr)"
proof -
  have a: "newline \<notin> set ''kitten''" and b: "newline \<notin> set ''sitting''"
    by (simp_all add: newline_def)
  show ?thesis
    using a b diff_single_line_strings[OF a b] by simp
qed






text \<open>
  C4.  The truth test of a tree looks at the tags of its entries only.  The specification lets a
  nested entry with an empty embedded tree count as no difference; the code counts every
  nested entry as a difference.
\<close>

theorem nested_empty_tree_counterexample:
  "\<not> DataDiff_bool (DataDiff [] TList (Some ''['') '']'' ''a'' ''b'')
   \<and> DataDiff_bool
        (DataDiff [Datadiff (Tree (DataDiff [] TList (Some ''['') '']'' ''a'' ''b''))]
           TList (Some ''['') '']'' ''a'' ''b'')"
  by (simp add: DataDiff_bool_def)

text \<open>
  C4, as the code has it.  A tree is false exactly when each of its entries is an
  \<open>equal\<close> run, a context marker or an end marker; a nested entry makes the tree true,
  whatever it embeds.
\<close>

theorem DataDiff_bool_iff:
  "(\<not> DataDiff_bool t \<longleftrightarrow>
      (\<forall>d \<in> set (diffs t).
         (\<exists>items. d = Multi Equal items) \<or> (\<exists>a0 a1 b0 b1. d = Context a0 a1 b0 b1)
         \<or> d = ContextEndContainer))
   \<and> (\<forall>d \<in> set (diffs t). (\<exists>x. d = Datadiff x) \<longrightarrow> DataDiff_bool t)"
proof -
  have k: "\<not> real_change d \<longleftrightarrow>
      ((\<exists>items. d = Multi Equal items) \<or> (\<exists>a0 a1 b0 b1. d = Context a0 a1 b0 b1)
       \<or> d = ContextEndContainer)" for d
    by (cases d rule: real_change.cases) simp_all
  have "\<not> DataDiff_bool t \<longleftrightarrow> (\<forall>d \<in> set (diffs t). \<not> real_change d)"
    by (simp add: DataDiff_bool_def filter_empty_conv)
  then show ?thesis
    using k by auto
qed

theorem DataDiff_bool_iff_witness:
  "\<not> DataDiff_bool
        (DataDiff [Context 0 2 0 2, Multi Equal [Value (PInt 1)], ContextEndContainer]
           TList (Some ''['') '']'' ''a'' ''b'')
   \<and> DataDiff_bool
        (DataDiff [Multi Equal [Value (PInt 1)],
                   Datadiff (Tree (DataDiff [] TList (Some ''['') '']'' ''a'' ''b''))]
           TList (Some ''['') '']'' ''a'' ''b'')"
  using DataDiff_bool_iff
          [of "DataDiff [Context 0 2 0 2, Multi Equal [Value (PInt 1)], ContextEndContainer]
                 TList (Some ''['') '']'' ''a'' ''b''"]
        DataDiff_bool_iff
          [of "DataDiff [Multi Equal [Value (PInt 1)],
                         Datadiff (Tree (DataDiff [] TList (Some ''['') '']'' ''a'' ''b''))]
                 TList (Some ''['') '']'' ''a'' ''b''"]
  by simp

subsection \<open>Reflexivity, the context budget and the order of a mapping diff\<close>

lemma diff_set_is_true: "diff_set env a b ty ctx depth ff tf = Inr t \<Longrightarrow> DataDiff_bool t"
  by (auto simp: diff_set_def DataDiff_init_def DataDiff_bool_def Let_def delete_multi_def
      insert_multi_def equal_multi_def multi_def context_end_container_def diffs_append_def
      split: if_splits)

text \<open>
  C1.  The diff of a set with itself is not empty: \<open>diff_set\<close> always records a \<open>delete\<close>
  run and an \<open>insert\<close> run, here both without items, and \<open>__bool__\<close> counts them.  The
  tree of \<open>diff({1}, {1})\<close> is true, where the sequence and the mapping differ return a
  false tree.
\<close>

theorem diff_set_reflexive_is_true:
  "diff example_env (PSet [PInt 1]) (PSet [PInt 1]) 3 0 ''a'' ''b'' False
     = Inr (Tree (DataDiff [Multi Delete [], Multi Insert [], Multi Equal [Value (PInt 1)]]
                    TSet (Some ''set(['') ''])'' ''a'' ''b''))
   \<and> DataDiff_bool (DataDiff [Multi Delete [], Multi Insert [], Multi Equal [Value (PInt 1)]]
                       TSet (Some ''set(['') ''])'' ''a'' ''b'')
   \<and> diff example_env (PList [PInt 1]) (PList [PInt 1]) 3 0 ''a'' ''b'' False
     = Inr (Tree (DataDiff [] TList (Some ''['') '']'' ''a'' ''b''))
   \<and> diff example_env (PDict [(PInt 1, PInt 1)]) (PDict [(PInt 1, PInt 1)]) 3 0 ''a'' ''b'' False
     = Inr (Tree (DataDiff [Multi Equal [Dictitem (PInt 1) (Value (PInt 1)) None]]
                    TDict (Some ''{'') ''}'' ''a'' ''b''))"
  by code_simp

text \<open>
  C2.  The context budget of the mapping differ.  The test \<open>if context:\<close> is false only
  when the budget is exactly zero, and the budget goes on falling: with a budget of 1 and
  the three equal keys \<open>x\<close>, \<open>y\<close>, \<open>z\<close>, the third key is emitted again.
\<close>

theorem diff_dict_budget_exhausted:
  "diff example_env
     (PDict [(PStr ''x'', PInt 1), (PStr ''y'', PInt 2), (PStr ''z'', PInt 3)])
     (PDict [(PStr ''x'', PInt 1), (PStr ''y'', PInt 2), (PStr ''z'', PInt 3)])
     1 0 ''a'' ''b'' False
   = Inr (Tree (DataDiff
           [Multi Equal [Dictitem (PStr ''x'') (Value (PInt 1)) None],
            Multi Equal [Dictitem (PStr ''z'') (Value (PInt 3)) None],
            ContextEndContainer]
           TDict (Some ''{'') ''}'' ''a'' ''b''))"
  by code_simp

text \<open>
  C3.  The order of the entries of a mapping diff.  A nested entry holds a \<open>dictitem\<close>,
  not a \<open>DataDiff\<close>, so the test for rank 0 never succeeds and the sort key of the entry
  is \<open>key[0]\<close>: the first character of a string key, and a \<open>TypeError\<close> for an integer
  key.  The nested entry for \<open>'b'\<close> sorts after the equal entry for \<open>'a'\<close>.
\<close>

theorem diff_dict_nested_not_first:
  "diff example_env
     (PDict [(PStr ''b'', PList [PInt 1]), (PStr ''a'', PInt 1)])
     (PDict [(PStr ''b'', PList [PInt 2]), (PStr ''a'', PInt 1)])
     3 0 ''a'' ''b'' False
   = Inr (Tree (DataDiff
           [Multi Equal [Dictitem (PStr ''a'') (Value (PInt 1)) None],
            Datadiff (Dictitem (PStr ''b'')
              (Tree (DataDiff
                 [Context 0 0 0 0, Multi Delete [Value (PInt 1)], Multi Insert [Value (PInt 2)]]
                 TList (Some ''['') '']'' ''a'' ''b''))
              (Some 1))]
           TDict (Some ''{'') ''}'' ''a'' ''b''))
   \<and> diff example_env
        (PDict [(PInt 1, PList [PInt 1]), (PInt 2, PInt 1)])
        (PDict [(PInt 1, PList [PInt 2]), (PInt 2, PInt 1)])
        3 0 ''a'' ''b'' False
      = Inl TypeError"
  by code_simp

subsection \<open>What the loops of the sequence differ append\<close>

lemma deleted_items_append [simp]:
  "deleted_items (xs @ ys) = deleted_items xs @ deleted_items ys"
  by (induction xs rule: deleted_items.induct) simp_all

lemma inserted_items_append [simp]:
  "inserted_items (xs @ ys) = inserted_items xs @ inserted_items ys"
  by (induction xs rule: inserted_items.induct) simp_all



lemma diffs_extend_Nil [simp]: "diffs_extend [] cd = cd"
  by (cases cd) (simp add: diffs_extend_def)

lemma diffs_extend_extend [simp]:
  "diffs_extend ys (diffs_extend xs cd) = diffs_extend (xs @ ys) cd"
  by (simp add: diffs_extend_def)

lemma diffs_diffs_extend [simp]: "diffs (diffs_extend xs cd) = diffs cd @ xs"
  by (simp add: diffs_extend_def)

lemma diffs_append_extend: "diffs_append d cd = diffs_extend [d] cd"
  by (simp add: diffs_append_def diffs_extend_def)

lemma clone_diffs_extend [simp]: "clone (diffs_extend xs cd) = clone cd"
  by (simp add: clone_def diffs_extend_def)

lemmas tree_ops =
  nested_def multi_def delete_multi_def insert_multi_def equal_multi_def delete_def
  insert_item_def equal_item_def context'_def context_end_container_def diffs_append_extend

text \<open>
  The loop over the pairs appends runs and nested entries only, loses no buffered item
  and never resets \<open>realy_diffs\<close>.
\<close>

lemma replace_pairs_appends:
  assumes "replace_pairs env rec ctx depth cwf ps (cd, dels, ins, realy)
           = Inr (cd', dels', ins', realy')"
  shows "\<exists>new. cd' = diffs_extend new cd \<and> list_all is_run new
           \<and> set dels \<subseteq> set (deleted_items new) \<union> set dels'
           \<and> set ins \<subseteq> set (inserted_items new) \<union> set ins'
           \<and> (realy \<longrightarrow> realy')"
  using assms
proof (induction ps arbitrary: cd dels ins realy)
  case Nil
  then show ?case
    by (intro exI[of _ "[]"]) simp
next
  case (Cons p ps)
  obtain a2 b2 where p: "p = (a2, b2)"
    by (cases p)
  from Cons.prems consider
    (skip) "replace_pairs env rec ctx depth cwf ps (cd, dels, ins, realy)
            = Inr (cd', dels', ins', realy')"
  | (nest) nd where "replace_pairs env rec ctx depth cwf ps
              (diffs_extend [Multi Delete dels, Multi Insert ins, Datadiff nd] cd, [], [], True)
            = Inr (cd', dels', ins', realy')"
  | (buffer) "replace_pairs env rec ctx depth cwf ps
              (cd, dels @ [Value a2], ins @ [Value b2], True)
            = Inr (cd', dels', ins', realy')"
    unfolding p by (auto simp: tree_ops split: sum.splits bool.splits if_splits)
  then show ?case
  proof cases
    case skip
    from Cons.IH[OF this] show ?thesis .
  next
    case nest
    from Cons.IH[OF this] obtain new where new:
      "cd' = diffs_extend ([Multi Delete dels, Multi Insert ins, Datadiff nd] @ new) cd"
      "list_all is_run new" "realy'"
      by auto
    show ?thesis
      by (rule exI[of _ "[Multi Delete dels, Multi Insert ins, Datadiff nd] @ new"])
        (use new in auto)
  next
    case buffer
    from Cons.IH[OF this] obtain new where
      "cd' = diffs_extend new cd" "list_all is_run new"
      "set (dels @ [Value a2]) \<subseteq> set (deleted_items new) \<union> set dels'"
      "set (ins @ [Value b2]) \<subseteq> set (inserted_items new) \<union> set ins'" "realy'"
      by auto
    then show ?thesis
      by (intro exI[of _ new]) auto
  qed
qed


lemma replace_opcode_appends:
  assumes "replace_opcode env rec a b ctx depth cwf i1 i2 j1 j2 (cd, realy) = Inr (cd', realy')"
  shows "\<exists>new. cd' = diffs_extend new cd \<and> list_all is_run new \<and> (realy \<longrightarrow> realy')"
proof -
  from assms obtain as bs cd1 dels' ins' ta tb where
    loop: "replace_pairs env rec ctx depth cwf (zip as bs) (cd, [], [], realy)
           = Inr (cd1, dels', ins', realy')"
    and cd': "cd' = (if i2 - i1 < j2 - j1 then insert_multi (map Value tb) else id)
                 (insert_multi ins'
                    ((if i2 - i1 > j2 - j1 then delete_multi (map Value ta) else id)
                       (delete_multi dels' cd1)))"
    unfolding replace_opcode_def
    by (fastforce split: sum.splits if_splits)
  from replace_pairs_appends[OF loop] obtain new1 where new1:
    "cd1 = diffs_extend new1 cd" "list_all is_run new1" "realy \<longrightarrow> realy'"
    by auto
  define post where "post = [Multi Delete dels']
        @ (if i2 - i1 > j2 - j1 then [Multi Delete (map Value ta)] else [])
        @ [Multi Insert ins']
        @ (if i2 - i1 < j2 - j1 then [Multi Insert (map Value tb)] else [])"
  have "cd' = diffs_extend post cd1"
    unfolding cd' post_def by (simp add: tree_ops)
  moreover have "list_all is_run post"
    by (simp add: post_def)
  ultimately show ?thesis
    using new1 by (intro exI[of _ "new1 @ post"]) simp
qed


lemma diff_seq_opcode_appends:
  assumes "diff_seq_opcode env rec a b ctx depth cwf opc (cd, realy) = Inr (cd', realy')"
  shows "\<exists>new. cd' = diffs_extend new cd \<and> list_all is_run new \<and> (realy \<longrightarrow> realy')"
proof -
  obtain change i1 i2 j1 j2 where opc: "opc = (change, i1, i2, j1, j2)"
    by (cases opc)
  show ?thesis
  proof (cases "change = Replace")
    case True
    then show ?thesis
      using assms replace_opcode_appends unfolding opc diff_seq_opcode_def by simp
  next
    case False
    then obtain items where "cd' = diffs_extend [Multi change items] cd" "realy \<longrightarrow> realy'"
      using assms unfolding opc diff_seq_opcode_def
      by (auto simp: tree_ops split: sum.splits)
    then show ?thesis
      by (intro exI[of _ "[Multi change items]"]) simp
  qed
qed

lemma diff_seq_opcodes_appends:
  assumes "diff_seq_opcodes env rec a b ctx depth cwf chunk (cd, realy) = Inr (cd', realy')"
  shows "\<exists>new. cd' = diffs_extend new cd \<and> list_all is_run new \<and> (realy \<longrightarrow> realy')"
  using assms
proof (induction chunk arbitrary: cd realy)
  case Nil
  then show ?case
    by (intro exI[of _ "[]"]) simp
next
  case (Cons opc chunk)
  then obtain cd1 realy1 where
    step: "diff_seq_opcode env rec a b ctx depth cwf opc (cd, realy) = Inr (cd1, realy1)"
    and rest: "diff_seq_opcodes env rec a b ctx depth cwf chunk (cd1, realy1) = Inr (cd', realy')"
    by (auto split: sum.splits)
  from diff_seq_opcode_appends[OF step] obtain new1 where
    "cd1 = diffs_extend new1 cd" "list_all is_run new1" "realy \<longrightarrow> realy1"
    by blast
  moreover from Cons.IH[OF rest] obtain new2 where
    "cd' = diffs_extend new2 cd1" "list_all is_run new2" "realy1 \<longrightarrow> realy'"
    by blast
  ultimately show ?case
    by (intro exI[of _ "new1 @ new2"]) simp
qed



lemma diff_seq_chunk_clone:
  "clone ddiff' = clone ddiff \<Longrightarrow>
   diff_seq_chunk env rec a b ctx depth cwf ddiff' chunk
   = diff_seq_chunk env rec a b ctx depth cwf ddiff chunk"
  by (simp add: diff_seq_chunk_def)

lemma diff_seq_chunks_concat:
  assumes "diff_seq_chunks env rec a b ctx depth cwf chunks ddiff = Inr t"
  shows "\<exists>dss. length dss = length chunks \<and> t = diffs_extend (concat dss) ddiff
           \<and> (\<forall>k < length chunks.
                 diff_seq_chunk env rec a b ctx depth cwf ddiff (chunks ! k) = Inr (dss ! k))"
  using assms
proof (induction chunks arbitrary: ddiff)
  case Nil
  then show ?case
    by (intro exI[of _ "[]"]) simp
next
  case (Cons chunk chunks)
  then obtain ds where
    step: "diff_seq_chunk env rec a b ctx depth cwf ddiff chunk = Inr ds"
    and rest: "diff_seq_chunks env rec a b ctx depth cwf chunks (diffs_extend ds ddiff) = Inr t"
    by (auto split: sum.splits)
  from Cons.IH[OF rest] obtain dss where dss:
    "length dss = length chunks" "t = diffs_extend (concat dss) (diffs_extend ds ddiff)"
    "\<forall>k < length chunks.
       diff_seq_chunk env rec a b ctx depth cwf (diffs_extend ds ddiff) (chunks ! k)
       = Inr (dss ! k)"
    by blast
  have "\<forall>k < length (chunk # chunks).
          diff_seq_chunk env rec a b ctx depth cwf ddiff ((chunk # chunks) ! k)
          = Inr ((ds # dss) ! k)"
  proof (intro allI impI)
    fix k
    assume "k < length (chunk # chunks)"
    then show "diff_seq_chunk env rec a b ctx depth cwf ddiff ((chunk # chunks) ! k)
               = Inr ((ds # dss) ! k)"
      using step dss(3) diff_seq_chunk_clone[of "diffs_extend ds ddiff" ddiff]
      by (cases k) auto
  qed
  then show ?case
    using dss(1,2) by (intro exI[of _ "ds # dss"]) simp
qed



subsection \<open>The pairs of a \<open>replace\<close> opcode\<close>

text \<open>
  C6.  The specification lets the loop over the pairs of a \<open>replace\<close> opcode skip a pair
  for its callable only when the comparison option is on, and lets the rest of the longer
  side be appended as a run.

  The loop calls \<open>compares_with_func(a2, b2)\<close> without testing the option (the dispatcher
  and the mapping differ test it).  With the option off and a callable \<open>f\<close> that accepts
  \<open>7\<close>, \<open>diff(f, 7)\<close> raises \<open>DiffTypeError\<close>, so the pair \<open>(f, 7)\<close> ought to be buffered
  and written as \<open>delete f\<close>, \<open>insert 7\<close>, as it is for a callable that refuses \<open>7\<close> and as
  the mapping differ does under a key; but \<open>diff([f], [7])\<close> skips the pair and holds two
  runs without items.

  The rest of the longer side does not set \<open>realy_diffs\<close>.  With the option on,
  \<open>diff([f, 3], [7])\<close> skips the pair \<open>(f, 7)\<close> and builds the run \<open>delete [3]\<close>, and the
  chunk is then dropped: the tree has no entry, where \<open>diff([3], [])\<close> holds \<open>delete [3]\<close>.
\<close>

theorem replace_skips_callable_pair:
  "call example_env 1 (PInt 7) = Returns True
   \<and> diff example_env (PCallable 1) (PInt 7) 3 1 ''a'' ''b'' False
     = Inl (DiffTypeError ''a'' ''b'' TFunction TInt (PCallable 1) (PInt 7))
   \<and> diff example_env (PList [PCallable 1]) (PList [PInt 7]) 3 0 ''a'' ''b'' False
     = Inr (Tree (DataDiff [Context 0 0 0 0, Multi Delete [], Multi Insert []]
                    TList (Some ''['') '']'' ''a'' ''b''))
   \<and> diff example_env (PList [PCallable 0]) (PList [PInt 7]) 3 0 ''a'' ''b'' False
     = Inr (Tree (DataDiff
                    [Context 0 0 0 0, Multi Delete [Value (PCallable 0)],
                     Multi Insert [Value (PInt 7)]]
                    TList (Some ''['') '']'' ''a'' ''b''))
   \<and> diff example_env (PDict [(PStr ''k'', PCallable 1)]) (PDict [(PStr ''k'', PInt 7)])
        3 0 ''a'' ''b'' False
     = Inr (Tree (DataDiff
                    [Multi Delete [Dictitem (PStr ''k'') (Value (PCallable 1)) None],
                     Multi Insert [Dictitem (PStr ''k'') (Value (PInt 7)) None]]
                    TDict (Some ''{'') ''}'' ''a'' ''b''))
   \<and> diff example_env (PList [PCallable 1, PInt 3]) (PList [PInt 7]) 3 0 ''a'' ''b'' True
     = Inr (Tree (DataDiff [] TList (Some ''['') '']'' ''a'' ''b''))
   \<and> diff example_env (PList [PInt 3]) (PList []) 3 0 ''a'' ''b'' True
     = Inr (Tree (DataDiff [Context 0 0 0 0, Multi Delete [Value (PInt 3)]]
                    TList (Some ''['') '']'' ''a'' ''b''))"
  by code_simp

subsection \<open>What the loop of the mapping differ appends\<close>














subsection \<open>Unhashable elements\<close>











subsection \<open>The end marker of a chunk\<close>

lemma diff_seq_chunk_marker:
  assumes "diff_seq_chunk env rec a b ctx depth cwf ddiff chunk = Inr ds" and "ds \<noteq> []"
  shows "(ContextEndContainer \<in> set ds \<longleftrightarrow> fst (snd (snd (last chunk))) < py_len a)
         \<and> (ContextEndContainer \<in> set ds \<longrightarrow>
              last ds = ContextEndContainer \<and> count_list ds ContextEndContainer = 1)"
proof -
  have ne: "chunk \<noteq> []"
    using assms(1) by (auto simp: diff_seq_chunk_def)
  obtain c0 f1 f2 f3 f4 where h: "hd chunk = (c0, f1, f2, f3, f4)"
    by (metis prod_cases5)
  obtain c1 l1 l2 l3 l4 where l: "last chunk = (c1, l1, l2, l3, l4)"
    by (metis prod_cases5)
  let ?start = "diffs_extend [Context (max (f1 - 1) 0) (max (l2 - 1) 0) (max (f3 - 1) 0)
                                (max (l4 - 1) 0)] (clone ddiff)"
  obtain chunk_ddiff realy where ops:
    "diff_seq_opcodes env rec a b ctx depth cwf chunk (?start, \<not> cwf) = Inr (chunk_ddiff, realy)"
    using assms(1) ne h l by (auto simp: diff_seq_chunk_def tree_ops split: sum.splits)
  have ds: "ds = (if realy
                  then diffs (if l2 < py_len a then diffs_extend [ContextEndContainer] chunk_ddiff
                              else chunk_ddiff)
                  else [])"
    using assms(1) ne h l ops by (auto simp: diff_seq_chunk_def tree_ops)
  from diff_seq_opcodes_appends[OF ops] obtain new where new:
    "chunk_ddiff = diffs_extend new ?start" "list_all is_run new"
    by blast
  have nomark: "ContextEndContainer \<notin> set new"
    using new(2) by (auto simp: list_all_iff)
  then have cnt: "count_list new ContextEndContainer = 0"
    by (simp add: count_list_0_iff)
  have shape: "ds = Context (max (f1 - 1) 0) (max (l2 - 1) 0) (max (f3 - 1) 0) (max (l4 - 1) 0)
                    # new @ (if l2 < py_len a then [ContextEndContainer] else [])"
    using ds assms(2) new(1) by (auto simp: clone_def split: if_splits)
  show ?thesis
    unfolding shape l using nomark cnt by simp
qed

text \<open>
  C7.  The specification places one marker at the end of the tree, when the last opcode ends
  before the end of \<open>a\<close>.  The code decides per chunk: diffing \<open>[0, 1, 2, 3, 4]\<close> with
  \<open>[9, 1, 2, 3, 8]\<close> and a context of 1 gives two chunks; the first ends at index 2 of the
  five elements and is closed by a marker, in the middle of the tree, and the last opcode
  ends at index 5, the end of \<open>a\<close>.
\<close>

theorem end_marker_counterexample:
  "get_grouped_opcodes py_eq
     [PInt 0, PInt 1, PInt 2, PInt 3, PInt 4] [PInt 9, PInt 1, PInt 2, PInt 3, PInt 8] 1
   = [[(Replace, 0, 1, 0, 1), (Equal, 1, 2, 1, 2)], [(Equal, 3, 4, 3, 4), (Replace, 4, 5, 4, 5)]]
   \<and> py_len (PList [PInt 0, PInt 1, PInt 2, PInt 3, PInt 4]) = 5
   \<and> diff example_env (PList [PInt 0, PInt 1, PInt 2, PInt 3, PInt 4])
       (PList [PInt 9, PInt 1, PInt 2, PInt 3, PInt 8]) 1 0 ''a'' ''b'' False
     = Inr (Tree (DataDiff
         [Context 0 1 0 1, Multi Delete [Value (PInt 0)], Multi Insert [Value (PInt 9)],
          Multi Equal [Value (PInt 1)], ContextEndContainer,
          Context 2 4 2 4, Multi Equal [Value (PInt 3)], Multi Delete [Value (PInt 4)],
          Multi Insert [Value (PInt 8)]]
         TList (Some ''['') '']'' ''a'' ''b''))"
  by code_simp

text \<open>
  C7, as the code has it.  The tree of a sequence diff is the concatenation of what its
  chunks contribute.  A chunk that contributes entries holds the marker exactly when the
  end index in \<open>a\<close> of its own last opcode is before the end of \<open>a\<close>; the marker is then
  its last entry and occurs once in it.
\<close>

theorem end_marker_per_chunk:
  assumes "diff_seq_chunks env rec a b ctx depth cwf chunks ddiff = Inr t"
  shows "\<exists>dss. length dss = length chunks \<and> diffs t = diffs ddiff @ concat dss
           \<and> (\<forall>k < length chunks.
                 diff_seq_chunk env rec a b ctx depth cwf ddiff (chunks ! k) = Inr (dss ! k)
                 \<and> (dss ! k \<noteq> [] \<longrightarrow>
                      (ContextEndContainer \<in> set (dss ! k)
                         \<longleftrightarrow> fst (snd (snd (last (chunks ! k)))) < py_len a)
                      \<and> (ContextEndContainer \<in> set (dss ! k) \<longrightarrow>
                           last (dss ! k) = ContextEndContainer
                           \<and> count_list (dss ! k) ContextEndContainer = 1)))"
proof -
  from diff_seq_chunks_concat[OF assms] obtain dss where dss:
    "length dss = length chunks" "t = diffs_extend (concat dss) ddiff"
    "\<forall>k < length chunks.
       diff_seq_chunk env rec a b ctx depth cwf ddiff (chunks ! k) = Inr (dss ! k)"
    by blast
  show ?thesis
    using dss diff_seq_chunk_marker[of env rec a b ctx depth cwf ddiff]
    by (intro exI[of _ dss]) (simp, blast)
qed

theorem end_marker_per_chunk_witness:
  "diff_seq_chunks example_env (\<lambda>a2 b2 c d w. diff example_env a2 b2 c d ''a'' ''b'' w)
     (PList [PInt 0, PInt 1, PInt 2, PInt 3, PInt 4])
     (PList [PInt 9, PInt 1, PInt 2, PInt 3, PInt 8]) 1 0 False
     ([[(Replace, 0, 1, 0, 1), (Equal, 1, 2, 1, 2)], [(Equal, 3, 4, 3, 4), (Replace, 4, 5, 4, 5)]] :: opcode list list)
     (DataDiff [] TList (Some ''['') '']'' ''a'' ''b'')
   = Inr (DataDiff
         [Context 0 1 0 1, Multi Delete [Value (PInt 0)], Multi Insert [Value (PInt 9)],
          Multi Equal [Value (PInt 1)], ContextEndContainer,
          Context 2 4 2 4, Multi Equal [Value (PInt 3)], Multi Delete [Value (PInt 4)],
          Multi Insert [Value (PInt 8)]]
         TList (Some ''['') '']'' ''a'' ''b'')
   \<and> (\<exists>dss. length dss
          = length ([[(Replace, 0, 1, 0, 1), (Equal, 1, 2, 1, 2)], [(Equal, 3, 4, 3, 4), (Replace, 4, 5, 4, 5)]] :: opcode list list)
        \<and> diffs (DataDiff
             [Context 0 1 0 1, Multi Delete [Value (PInt 0)], Multi Insert [Value (PInt 9)],
              Multi Equal [Value (PInt 1)], ContextEndContainer,
              Context 2 4 2 4, Multi Equal [Value (PInt 3)], Multi Delete [Value (PInt 4)],
              Multi Insert [Value (PInt 8)]]
             TList (Some ''['') '']'' ''a'' ''b'')
          = diffs (DataDiff [] TList (Some ''['') '']'' ''a'' ''b'') @ concat dss
        \<and> (\<forall>k < length ([[(Replace, 0, 1, 0, 1), (Equal, 1, 2, 1, 2)], [(Equal, 3, 4, 3, 4), (Replace, 4, 5, 4, 5)]] :: opcode list list).
              diff_seq_chunk example_env
                (\<lambda>a2 b2 c d w. diff example_env a2 b2 c d ''a'' ''b'' w)
                (PList [PInt 0, PInt 1, PInt 2, PInt 3, PInt 4])
                (PList [PInt 9, PInt 1, PInt 2, PInt 3, PInt 8]) 1 0 False
                (DataDiff [] TList (Some ''['') '']'' ''a'' ''b'')
                (([[(Replace, 0, 1, 0, 1), (Equal, 1, 2, 1, 2)], [(Equal, 3, 4, 3, 4), (Replace, 4, 5, 4, 5)]] :: opcode list list) ! k)
              = Inr (dss ! k)
              \<and> (dss ! k \<noteq> [] \<longrightarrow>
                   (ContextEndContainer \<in> set (dss ! k)
                      \<longleftrightarrow> fst (snd (snd (last
                             (([[(Replace, 0, 1, 0, 1), (Equal, 1, 2, 1, 2)], [(Equal, 3, 4, 3, 4), (Replace, 4, 5, 4, 5)]] :: opcode list list) ! k))))
                          < py_len (PList [PInt 0, PInt 1, PInt 2, PInt 3, PInt 4]))
                   \<and> (ContextEndContainer \<in> set (dss ! k) \<longrightarrow>
                        last (dss ! k) = ContextEndContainer
                        \<and> count_list (dss ! k) ContextEndContainer = 1))))"
proof (rule conjI)
  show ev: "diff_seq_chunks example_env (\<lambda>a2 b2 c d w. diff example_env a2 b2 c d ''a'' ''b'' w)
     (PList [PInt 0, PInt 1, PInt 2, PInt 3, PInt 4])
     (PList [PInt 9, PInt 1, PInt 2, PInt 3, PInt 8]) 1 0 False
     ([[(Replace, 0, 1, 0, 1), (Equal, 1, 2, 1, 2)], [(Equal, 3, 4, 3, 4), (Replace, 4, 5, 4, 5)]] :: opcode list list)
     (DataDiff [] TList (Some ''['') '']'' ''a'' ''b'')
   = Inr (DataDiff
         [Context 0 1 0 1, Multi Delete [Value (PInt 0)], Multi Insert [Value (PInt 9)],
          Multi Equal [Value (PInt 1)], ContextEndContainer,
          Context 2 4 2 4, Multi Equal [Value (PInt 3)], Multi Delete [Value (PInt 4)],
          Multi Insert [Value (PInt 8)]]
         TList (Some ''['') '']'' ''a'' ''b'')"
    by code_simp
  show "\<exists>dss. length dss
          = length ([[(Replace, 0, 1, 0, 1), (Equal, 1, 2, 1, 2)], [(Equal, 3, 4, 3, 4), (Replace, 4, 5, 4, 5)]] :: opcode list list)
        \<and> diffs (DataDiff
             [Context 0 1 0 1, Multi Delete [Value (PInt 0)], Multi Insert [Value (PInt 9)],
              Multi Equal [Value (PInt 1)], ContextEndContainer,
              Context 2 4 2 4, Multi Equal [Value (PInt 3)], Multi Delete [Value (PInt 4)],
              Multi Insert [Value (PInt 8)]]
             TList (Some ''['') '']'' ''a'' ''b'')
          = diffs (DataDiff [] TList (Some ''['') '']'' ''a'' ''b'') @ concat dss
        \<and> (\<forall>k < length ([[(Replace, 0, 1, 0, 1), (Equal, 1, 2, 1, 2)], [(Equal, 3, 4, 3, 4), (Replace, 4, 5, 4, 5)]] :: opcode list list).
              diff_seq_chunk example_env
                (\<lambda>a2 b2 c d w. diff example_env a2 b2 c d ''a'' ''b'' w)
                (PList [PInt 0, PInt 1, PInt 2, PInt 3, PInt 4])
                (PList [PInt 9, PInt 1, PInt 2, PInt 3, PInt 8]) 1 0 False
                (DataDiff [] TList (Some ''['') '']'' ''a'' ''b'')
                (([[(Replace, 0, 1, 0, 1), (Equal, 1, 2, 1, 2)], [(Equal, 3, 4, 3, 4), (Replace, 4, 5, 4, 5)]] :: opcode list list) ! k)
              = Inr (dss ! k)
              \<and> (dss ! k \<noteq> [] \<longrightarrow>
                   (ContextEndContainer \<in> set (dss ! k)
                      \<longleftrightarrow> fst (snd (snd (last
                             (([[(Replace, 0, 1, 0, 1), (Equal, 1, 2, 1, 2)], [(Equal, 3, 4, 3, 4), (Replace, 4, 5, 4, 5)]] :: opcode list list) ! k))))
                          < py_len (PList [PInt 0, PInt 1, PInt 2, PInt 3, PInt 4]))
                   \<and> (ContextEndContainer \<in> set (dss ! k) \<longrightarrow>
                        last (dss ! k) = ContextEndContainer
                        \<and> count_list (dss ! k) ContextEndContainer = 1)))"
    by (rule end_marker_per_chunk[OF ev])
qed

end
